theory Spec2Isabelle
  imports Main "HOL-Library.Sublist" "HOL-Library.Word"
begin

section \<open>JavaScript string primitives used by the text editor\<close>

text \<open>
  A JavaScript string is modelled as a \<^typ>\<open>string\<close>: every \<^typ>\<open>char\<close> stands for one
  code unit below 256. The functions of this section model the methods of
  \<open>String.prototype\<close> and \<open>Array.prototype\<close> that \<open>index.ts\<close> calls.
\<close>

text \<open>\<open>s.startsWith(t)\<close>.\<close>

definition startsWith :: "string \<Rightarrow> string \<Rightarrow> bool" where
  "startsWith s t = prefix t s"

text \<open>\<open>s.includes(t)\<close>: \<open>t\<close> occurs in \<open>s\<close> as a contiguous run of code units.\<close>

fun str_includes :: "string \<Rightarrow> string \<Rightarrow> bool" where
  "str_includes [] t = (t = [])"
| "str_includes (c # cs) t = (prefix t (c # cs) \<or> str_includes cs t)"

text \<open>\<open>s.indexOf(t)\<close>, with \<open>None\<close> for the result \<open>-1\<close>.\<close>

fun indexOf :: "string \<Rightarrow> string \<Rightarrow> nat option" where
  "indexOf [] t = (if t = [] then Some 0 else None)"
| "indexOf (c # cs) t =
     (if prefix t (c # cs) then Some 0 else map_option Suc (indexOf cs t))"

text \<open>
  The replacement text of \<open>s.replace(pattern, replacement)\<close> for a string pattern
  (the abstract operation GetSubstitution of ECMAScript with no capture groups):
  \<open>$$\<close> is a dollar sign, \<open>$&\<close> the matched text, \<open>$`\<close> the text before the
  match (\<open>pre\<close>) and \<open>$'\<close> the text after it (\<open>post\<close>); every other character, also a dollar sign before a
  digit or before \<open><\<close>, stands for itself.
\<close>

fun getSubstitution :: "string \<Rightarrow> string \<Rightarrow> string \<Rightarrow> string \<Rightarrow> string" where
  "getSubstitution matched pre post [] = []"
| "getSubstitution matched pre post [c] = [c]"
| "getSubstitution matched pre post (c # d # rest) =
     (if c = CHR ''$'' \<and> d = CHR ''$'' then CHR ''$'' # getSubstitution matched pre post rest
      else if c = CHR ''$'' \<and> d = CHR ''&'' then matched @ getSubstitution matched pre post rest
      else if c = CHR ''$'' \<and> d = CHR 0x60 then pre @ getSubstitution matched pre post rest
      else if c = CHR ''$'' \<and> d = CHR 0x27 then post @ getSubstitution matched pre post rest
      else c # getSubstitution matched pre post (d # rest))"

text \<open>
  \<open>s.replace(pattern, replacement)\<close> with both arguments strings: only the first
  occurrence of the pattern is replaced, and the replacement is expanded by
  \<^const>\<open>getSubstitution\<close>.
\<close>

definition replace :: "string \<Rightarrow> string \<Rightarrow> string \<Rightarrow> string" where
  "replace s pattern replacement =
     (case indexOf s pattern of
        None \<Rightarrow> s
      | Some i \<Rightarrow>
          take i s
          @ getSubstitution pattern (take i s) (drop (i + length pattern) s) replacement
          @ drop (i + length pattern) s)"

text \<open>
  The first occurrence of the pattern replaced by the replacement text taken literally:
  what \<^const>\<open>replace\<close> is compared with.
\<close>

definition replaceLiteral :: "string \<Rightarrow> string \<Rightarrow> string \<Rightarrow> string" where
  "replaceLiteral s pattern replacement =
     (case indexOf s pattern of
        None \<Rightarrow> s
      | Some i \<Rightarrow> take i s @ replacement @ drop (i + length pattern) s)"

text \<open>\<open>s.split('\n')\<close> and \<open>lines.join('\n')\<close>, for any separator.\<close>

fun split :: "char \<Rightarrow> string \<Rightarrow> string list" where
  "split sep [] = [[]]"
| "split sep (c # cs) =
     (if c = sep then [] # split sep cs
      else (case split sep cs of
              [] \<Rightarrow> [[c]]
            | l # ls \<Rightarrow> (c # l) # ls))"

fun join :: "char \<Rightarrow> string list \<Rightarrow> string" where
  "join sep [] = []"
| "join sep [l] = l"
| "join sep (l # m # ls) = l @ sep # join sep (m # ls)"

text \<open>
  The white space of \<open>trim\<close>, \<open>trimStart\<close> and of the class \<open>\s\<close> of a regular
  expression, among the code units below 256: tab, line feed, vertical tab, form feed,
  carriage return, space and no-break space.
\<close>

definition isWhitespace :: "char \<Rightarrow> bool" where
  "isWhitespace c =
     (c = CHR 0x09 \<or> c = CHR 0x0A \<or> c = CHR 0x0B \<or> c = CHR 0x0C \<or> c = CHR 0x0D
      \<or> c = CHR 0x20 \<or> c = CHR 0xA0)"

definition trimStart :: "string \<Rightarrow> string" where
  "trimStart s = dropWhile isWhitespace s"

definition trimEnd :: "string \<Rightarrow> string" where
  "trimEnd s = rev (dropWhile isWhitespace (rev s))"

definition trim :: "string \<Rightarrow> string" where
  "trim s = trimEnd (trimStart s)"

text \<open>\<open>s.match(/^\s*/)?.[0] || ''\<close>: the leading run of white space.\<close>

definition leadingWhitespace :: "string \<Rightarrow> string" where
  "leadingWhitespace s = takeWhile isWhitespace s"

text \<open>\<open>xs.slice(i, j)\<close> for \<open>0 \<le> i \<le> j\<close>.\<close>

definition slice :: "'a list \<Rightarrow> nat \<Rightarrow> nat \<Rightarrow> 'a list" where
  "slice xs i j = take (j - i) (drop i xs)"

text \<open>\<open>xs.splice(i, n, ...ys)\<close> for \<open>0 \<le> i\<close>: the array after the call.\<close>

definition splice :: "'a list \<Rightarrow> nat \<Rightarrow> nat \<Rightarrow> 'a list \<Rightarrow> 'a list" where
  "splice xs i n ys = take i xs @ ys @ drop (i + n) xs"

section \<open>File editing utilities\<close>

text \<open>\<open>normalizeLineEndings\<close>: \<open>text.replace(/\r\n/g, '\n')\<close>.\<close>

fun normalizeLineEndings :: "string \<Rightarrow> string" where
  "normalizeLineEndings [] = []"
| "normalizeLineEndings [c] = [c]"
| "normalizeLineEndings (c # d # rest) =
     (if c = CHR 0x0D \<and> d = CHR 0x0A then CHR 0x0A # normalizeLineEndings rest
      else c # normalizeLineEndings (d # rest))"

record edit =
  oldText :: string
  newText :: string

datatype error =
    AccessDeniedPath
  | AccessDeniedSymlink
  | AccessDeniedParent
  | ParentNotFound string
  | NoMatchFound string
  | NoHistory string
  | FsError

text \<open>
  The callback of \<open>oldLines.every\<close> in \<open>applyFileEdits\<close>: the window has as many lines
  as \<open>oldLines\<close>, and each pair of lines is equal after \<open>trim\<close>.
\<close>

definition isMatch :: "string list \<Rightarrow> string list \<Rightarrow> bool" where
  "isMatch oldLines potentialMatch =
     list_all2 (\<lambda>oldLine contentLine. trim oldLine = trim contentLine) oldLines potentialMatch"

text \<open>
  The callback of \<open>normalizedNew.split('\n').map\<close>: the replacement line \<open>j\<close>.
  An empty string is falsy, so the branch of the relative indentation is taken only when
  both the old line \<open>j\<close> and the new line \<open>j\<close> start with white space.
\<close>

definition newLine :: "string \<Rightarrow> string list \<Rightarrow> nat \<Rightarrow> string \<Rightarrow> string" where
  "newLine originalIndent oldLines j line =
     (if j = 0 then originalIndent @ trimStart line
      else
        let oldIndent = (if j < length oldLines then leadingWhitespace (oldLines ! j) else []);
            newIndent = leadingWhitespace line
        in if oldIndent \<noteq> [] \<and> newIndent \<noteq> [] then
             let relativeIndent = int (length newIndent) - int (length oldIndent)
             in originalIndent @ replicate (nat (max 0 relativeIndent)) CHR 0x20 @ trimStart line
           else line)"

definition newLines :: "string \<Rightarrow> string list \<Rightarrow> string \<Rightarrow> string list" where
  "newLines originalIndent oldLines normalizedNew =
     (let ls = split CHR 0x0A normalizedNew
      in map (\<lambda>(j, line). newLine originalIndent oldLines j line) (zip [0 ..< length ls] ls))"

text \<open>
  The \<open>for\<close> loop over the window index \<open>i\<close>, from \<open>i\<close> on: the content after the
  replacement at the first matching window, \<open>None\<close> when the loop ends with
  \<open>matchFound\<close> still false.
\<close>

function fuzzyLoop :: "string list \<Rightarrow> string list \<Rightarrow> string \<Rightarrow> nat \<Rightarrow> string option" where
  "fuzzyLoop oldLines contentLines normalizedNew i =
     (if i + length oldLines \<le> length contentLines then
        (if isMatch oldLines (slice contentLines i (i + length oldLines)) then
           let originalIndent = leadingWhitespace (contentLines ! i)
           in Some (join CHR 0x0A
                (splice contentLines i (length oldLines)
                   (newLines originalIndent oldLines normalizedNew)))
         else fuzzyLoop oldLines contentLines normalizedNew (Suc i))
      else None)"
  by pat_completeness auto
termination
  by (relation "measure (\<lambda>(oldLines, contentLines, normalizedNew, i). Suc (length contentLines) - i)")
    auto

text \<open>The body of the loop \<open>for (const edit of edits)\<close> of \<open>applyFileEdits\<close>.\<close>

definition applyEdit :: "string \<Rightarrow> edit \<Rightarrow> error + string" where
  "applyEdit modifiedContent e =
     (let normalizedOld = normalizeLineEndings (oldText e);
          normalizedNew = normalizeLineEndings (newText e)
      in if str_includes modifiedContent normalizedOld then
           Inr (replace modifiedContent normalizedOld normalizedNew)
         else
           (case fuzzyLoop (split CHR 0x0A normalizedOld) (split CHR 0x0A modifiedContent)
                   normalizedNew 0 of
              None \<Rightarrow> Inl (NoMatchFound (oldText e))
            | Some c \<Rightarrow> Inr c))"

fun applyEdits :: "string \<Rightarrow> edit list \<Rightarrow> error + string" where
  "applyEdits modifiedContent [] = Inr modifiedContent"
| "applyEdits modifiedContent (e # es) =
     (case applyEdit modifiedContent e of
        Inl err \<Rightarrow> Inl err
      | Inr c \<Rightarrow> applyEdits c es)"

section \<open>The environment: operating system, file system, diff library\<close>

text \<open>
  What \<open>index.ts\<close> takes from outside: the home directory (\<open>os.homedir()\<close>), the working
  directory (\<open>process.cwd()\<close>), the resolution of symbolic links (\<open>fs.realpath\<close>, with
  \<open>None\<close> when the promise is rejected, as for a path that does not exist) and the function
  \<open>createTwoFilesPatch\<close> of the package \<open>diff\<close>.
\<close>

record env =
  homedir :: string
  cwd :: string
  realpath :: "string \<Rightarrow> string option"
  createTwoFilesPatch :: "string \<Rightarrow> string \<Rightarrow> string \<Rightarrow> string \<Rightarrow> string \<Rightarrow> string \<Rightarrow> string"

text \<open>
  The mutable state: the content of every file, by path, and the global map
  \<open>editHistory\<close>. The content of a file is the string that \<open>fs.readFile(path, 'utf-8')\<close>
  returns for it, over the code units below 256: \<open>fs.readFile\<close> of a path with no content
  is rejected, and \<open>fs.writeFile\<close> stores the string. The bytes of the files, their
  decoding and the encoding of what is written are in the section on files as bytes.
\<close>

record state =
  files :: "string \<rightharpoonup> string"
  editHistory :: "string \<rightharpoonup> string list"

definition MAX_HISTORY_SIZE :: nat where
  "MAX_HISTORY_SIZE = 10"

definition writeFile :: "state \<Rightarrow> string \<Rightarrow> string \<Rightarrow> state" where
  "writeFile s filePath content = s\<lparr>files := (files s)(filePath \<mapsto> content)\<rparr>"

section \<open>Paths (the module \<open>path\<close> of Node.js on POSIX)\<close>

definition path_isAbsolute :: "string \<Rightarrow> bool" where
  "path_isAbsolute p = (p \<noteq> [] \<and> hd p = CHR ''/'')"

text \<open>
  \<open>normalizeString\<close> of Node.js on the segments of a path: empty segments and \<open>.\<close> are
  dropped, \<open>..\<close> removes the segment before it, and is kept only where nothing is left to
  remove and the path is relative. The accumulator holds the segments kept so far, last
  first.
\<close>

fun normalizeSegments :: "bool \<Rightarrow> string list \<Rightarrow> string list \<Rightarrow> string list" where
  "normalizeSegments allowAboveRoot acc [] = rev acc"
| "normalizeSegments allowAboveRoot acc (seg # segs) =
     (if seg = [] \<or> seg = ''.'' then normalizeSegments allowAboveRoot acc segs
      else if seg = ''..'' then
        (if acc \<noteq> [] \<and> hd acc \<noteq> ''..'' then normalizeSegments allowAboveRoot (tl acc) segs
         else if allowAboveRoot then normalizeSegments allowAboveRoot (''..'' # acc) segs
         else normalizeSegments allowAboveRoot acc segs)
      else normalizeSegments allowAboveRoot (seg # acc) segs)"

definition normalizeString :: "string \<Rightarrow> bool \<Rightarrow> string" where
  "normalizeString p allowAboveRoot =
     join CHR ''/'' (normalizeSegments allowAboveRoot [] (split CHR ''/'' p))"

text \<open>\<open>path.normalize\<close>.\<close>

definition path_normalize :: "string \<Rightarrow> string" where
  "path_normalize p =
     (if p = [] then ''.''
      else
        let isAbsolute = (hd p = CHR ''/'');
            trailingSeparator = (last p = CHR ''/'');
            n = normalizeString p (\<not> isAbsolute)
        in if n = [] then (if isAbsolute then ''/'' else if trailingSeparator then ''./'' else ''.'')
           else
             let n' = (if trailingSeparator then n @ ''/'' else n)
             in if isAbsolute then CHR ''/'' # n' else n')"

text \<open>\<open>path.join\<close>.\<close>

definition path_join :: "string list \<Rightarrow> string" where
  "path_join args =
     (let parts = filter (\<lambda>a. a \<noteq> []) args
      in if parts = [] then ''.'' else path_normalize (join CHR ''/'' parts))"

text \<open>
  The loop of \<open>path.resolve\<close>, over the arguments from the last to the first and then the
  working directory: it stops at the first absolute path.
\<close>

fun resolveLoop :: "string list \<Rightarrow> string \<Rightarrow> string \<times> bool" where
  "resolveLoop [] resolvedPath = (resolvedPath, False)"
| "resolveLoop (p # ps) resolvedPath =
     (if p = [] then resolveLoop ps resolvedPath
      else if hd p = CHR ''/'' then (p @ ''/'' @ resolvedPath, True)
      else resolveLoop ps (p @ ''/'' @ resolvedPath))"

definition path_resolve :: "env \<Rightarrow> string list \<Rightarrow> string" where
  "path_resolve e args =
     (case resolveLoop (rev args @ [cwd e]) [] of
        (resolvedPath, resolvedAbsolute) \<Rightarrow>
          let n = normalizeString resolvedPath (\<not> resolvedAbsolute)
          in if resolvedAbsolute then CHR ''/'' # n
             else if n \<noteq> [] then n else ''.'')"

text \<open>
  \<open>path.dirname\<close>: \<open>end\<close> is the index of the last separator that has a character other
  than a separator after it, looked for from index 1 on.
\<close>

definition path_dirname :: "string \<Rightarrow> string" where
  "path_dirname p =
     (if p = [] then ''.''
      else
        let hasRoot = (hd p = CHR ''/'');
            afterName = dropWhile (\<lambda>c. c \<noteq> CHR ''/'')
                          (dropWhile (\<lambda>c. c = CHR ''/'') (rev (tl p)));
            end = length afterName
        in if afterName = [] then (if hasRoot then ''/'' else ''.'')
           else if hasRoot \<and> end = 1 then ''//''
           else take end p)"

section \<open>Security utilities\<close>

definition normalizePath :: "string \<Rightarrow> string" where
  "normalizePath p = path_normalize p"

definition expandHome :: "env \<Rightarrow> string \<Rightarrow> string" where
  "expandHome e filepath =
     (if startsWith filepath ''~/'' \<or> filepath = ''~''
      then path_join [homedir e, drop 1 filepath]
      else filepath)"

text \<open>The global \<open>allowedDirectories\<close>, from the arguments of the command line.\<close>

definition allowedDirectories :: "env \<Rightarrow> string list \<Rightarrow> string list" where
  "allowedDirectories e args =
     map (\<lambda>dir. normalizePath (path_resolve e [expandHome e dir])) args"

text \<open>\<open>allowedDirectories.some(dir => p.startsWith(dir))\<close>.\<close>

definition isAllowed :: "string list \<Rightarrow> string \<Rightarrow> bool" where
  "isAllowed dirs p = list_ex (\<lambda>dir. startsWith p dir) dirs"

text \<open>
  The inner \<open>try\<close> block of \<open>validatePath\<close>, for a new file: the real path of the
  parent directory is checked, and the path itself is returned.
\<close>

definition tryParent :: "env \<Rightarrow> string list \<Rightarrow> string \<Rightarrow> string \<Rightarrow> error + string" where
  "tryParent e dirs absolute parentDir =
     (case realpath e parentDir of
        None \<Rightarrow> Inl FsError
      | Some realParentPath \<Rightarrow>
          let normalizedParent = normalizePath realParentPath
          in if \<not> isAllowed dirs normalizedParent then Inl AccessDeniedParent
             else Inr absolute)"

text \<open>The outer \<open>try\<close> block: the real path is checked and returned.\<close>

definition tryRealpath :: "env \<Rightarrow> string list \<Rightarrow> string \<Rightarrow> error + string" where
  "tryRealpath e dirs absolute =
     (case realpath e absolute of
        None \<Rightarrow> Inl FsError
      | Some realPath \<Rightarrow>
          let normalizedReal = normalizePath realPath
          in if \<not> isAllowed dirs normalizedReal then Inl AccessDeniedSymlink
             else Inr realPath)"

text \<open>
  \<open>validatePath\<close>. Each \<open>catch\<close> receives whatever its \<open>try\<close> block throws: the
  rejection of \<open>fs.realpath\<close> and the \<open>Error\<close> thrown by the block itself alike.
\<close>

definition validatePath :: "env \<Rightarrow> string list \<Rightarrow> string \<Rightarrow> error + string" where
  "validatePath e dirs requestedPath =
     (let expandedPath = expandHome e requestedPath;
          absolute = (if path_isAbsolute expandedPath
                      then path_resolve e [expandedPath]
                      else path_resolve e [cwd e, expandedPath]);
          normalizedRequested = normalizePath absolute
      in if \<not> isAllowed dirs normalizedRequested then Inl AccessDeniedPath
         else
           (case tryRealpath e dirs absolute of
              Inr realPath \<Rightarrow> Inr realPath
            | Inl err \<Rightarrow>
                let parentDir = path_dirname absolute
                in (case tryParent e dirs absolute parentDir of
                      Inr p \<Rightarrow> Inr p
                    | Inl err' \<Rightarrow> Inl (ParentNotFound parentDir))))"

text \<open>The value of the local \<open>absolute\<close> of \<open>validatePath\<close>.\<close>

definition absolutePath :: "env \<Rightarrow> string \<Rightarrow> string" where
  "absolutePath e requestedPath =
     (let expandedPath = expandHome e requestedPath
      in if path_isAbsolute expandedPath
         then path_resolve e [expandedPath]
         else path_resolve e [cwd e, expandedPath])"

text \<open>
  In the words of the specification: a root is a path-segment-respecting prefix of a path
  when the path is the root itself or continues the root after a separator.
\<close>

definition segmentPrefix :: "string \<Rightarrow> string \<Rightarrow> bool" where
  "segmentPrefix root p =
     (p = root \<or> prefix (root @ ''/'') p \<or> (root \<noteq> [] \<and> last root = CHR ''/'' \<and> prefix root p))"

definition segmentAllowed :: "string list \<Rightarrow> string \<Rightarrow> bool" where
  "segmentAllowed dirs p = list_ex (\<lambda>dir. segmentPrefix dir p) dirs"

section \<open>History, patches and insertion\<close>

text \<open>\<open>createUnifiedDiff\<close>, with the file path given by the caller.\<close>

definition createUnifiedDiff :: "env \<Rightarrow> string \<Rightarrow> string \<Rightarrow> string \<Rightarrow> string" where
  "createUnifiedDiff e originalContent newContent filepath =
     (let normalizedOriginal = normalizeLineEndings originalContent;
          normalizedNew = normalizeLineEndings newContent
      in createTwoFilesPatch e filepath filepath normalizedOriginal normalizedNew
           ''original'' ''modified'')"

text \<open>
  \<open>saveToHistory\<close>: the content is pushed on the stack of the path, and the oldest entry
  is shifted out when the stack has grown beyond \<^const>\<open>MAX_HISTORY_SIZE\<close>.
\<close>

definition saveToHistory :: "state \<Rightarrow> string \<Rightarrow> string \<Rightarrow> state" where
  "saveToHistory s filePath content =
     (let history = (case editHistory s filePath of None \<Rightarrow> [] | Some h \<Rightarrow> h);
          pushed = history @ [content];
          kept = (if length pushed > MAX_HISTORY_SIZE then tl pushed else pushed)
      in s\<lparr>editHistory := (editHistory s)(filePath \<mapsto> kept)\<rparr>)"

text \<open>
  The loop \<open>while (diff.includes('`'.repeat(numBackticks))) numBackticks++\<close>, from
  \<open>numBackticks = n\<close> on.
\<close>

function numBackticks :: "string \<Rightarrow> nat \<Rightarrow> nat" where
  "numBackticks diff n =
     (if str_includes diff (replicate n CHR 0x60) then numBackticks diff (Suc n) else n)"
  by pat_completeness auto
termination
proof (relation "measure (\<lambda>(diff, n). Suc (length diff) - n)")
  show "wf (measure (\<lambda>(diff, n). Suc (length diff) - n))"
    by simp
next
  fix diff :: string and n :: nat
  assume incl: "str_includes diff (replicate n CHR 0x60)"
  have bound: "str_includes s t \<Longrightarrow> length t \<le> length s" for s t
    by (induction s) (auto dest: prefix_length_le)
  from bound [OF incl] have "n \<le> length diff"
    by simp
  then show "((diff, Suc n), (diff, n)) \<in> measure (\<lambda>(diff, n). Suc (length diff) - n)"
    by simp
qed

text \<open>The fenced block around a diff, followed by \<open>trailer\<close>.\<close>

definition formatDiff :: "string \<Rightarrow> string \<Rightarrow> string" where
  "formatDiff diff trailer =
     (let n = numBackticks diff 3
      in replicate n CHR 0x60 @ ''diff'' @ [CHR 0x0A] @ diff @ replicate n CHR 0x60 @ trailer)"

text \<open>
  \<open>applyFileEdits\<close>: the result, or the error thrown, and the state after the call.
\<close>

definition applyFileEdits ::
  "env \<Rightarrow> state \<Rightarrow> string \<Rightarrow> edit list \<Rightarrow> bool \<Rightarrow> (error + string) \<times> state" where
  "applyFileEdits e s filePath edits dryRun =
     (case files s filePath of
        None \<Rightarrow> (Inl FsError, s)
      | Some raw \<Rightarrow>
          let content = normalizeLineEndings raw;
              s1 = (if \<not> dryRun then saveToHistory s filePath content else s)
          in (case applyEdits content edits of
                Inl err \<Rightarrow> (Inl err, s1)
              | Inr modifiedContent \<Rightarrow>
                  let diff = createUnifiedDiff e content modifiedContent filePath;
                      formattedDiff = formatDiff diff [CHR 0x0A, CHR 0x0A];
                      s2 = (if \<not> dryRun then writeFile s1 filePath modifiedContent else s1)
                  in (Inr formattedDiff, s2)))"

text \<open>
  \<open>insertAtLine\<close>, for an integer \<open>insertLine\<close>, inserting \<open>newText'\<close>. \<open>lines.splice\<close> counts a negative
  start from the end of the array.
\<close>

definition insertAtLine ::
  "env \<Rightarrow> state \<Rightarrow> string \<Rightarrow> int \<Rightarrow> string \<Rightarrow> (error + string) \<times> state" where
  "insertAtLine e s filePath insertLine newText' =
     (case files s filePath of
        None \<Rightarrow> (Inl FsError, s)
      | Some content \<Rightarrow>
          let s1 = saveToHistory s filePath content;
              lines = split CHR 0x0A content;
              lines' =
                (if insertLine = 0 then newText' # lines
                 else
                   let actualLine = min insertLine (int (length lines));
                       start = (if actualLine < 0 then max (int (length lines) + actualLine) 0
                                else actualLine)
                   in splice lines (nat start) 0 [newText']);
              modifiedContent = join CHR 0x0A lines';
              s2 = writeFile s1 filePath modifiedContent;
              diff = createUnifiedDiff e content modifiedContent filePath
          in (Inr (formatDiff diff [CHR 0x0A, CHR 0x0A]), s2))"

text \<open>
  The case \<open>undo_edit\<close> of the request handler, after \<open>validatePath\<close>: \<open>requested\<close> is
  the path of the request, for the message of the error.
\<close>

definition undo_edit ::
  "env \<Rightarrow> state \<Rightarrow> string \<Rightarrow> string \<Rightarrow> (error + string) \<times> state" where
  "undo_edit e s validPath requested =
     (case editHistory s validPath of
        None \<Rightarrow> (Inl (NoHistory requested), s)
      | Some history \<Rightarrow>
          if history = [] then (Inl (NoHistory requested), s)
          else
            let previousContent = last history;
                s1 = s\<lparr>editHistory := (editHistory s)(validPath \<mapsto> butlast history)\<rparr>
            in (case files s1 validPath of
                  None \<Rightarrow> (Inl FsError, s1)
                | Some currentContent \<Rightarrow>
                    let s2 = writeFile s1 validPath previousContent;
                        diff = createUnifiedDiff e currentContent previousContent validPath
                    in (Inr (formatDiff diff
                               ([CHR 0x0A, CHR 0x0A] @ ''Reverted to previous version.'')), s2)))"

section \<open>Sequences of operations on one path\<close>

text \<open>
  A mutating operation is a call of \<open>applyFileEdits\<close> with \<open>dryRun\<close> false or a call
  of \<open>insertAtLine\<close>.
\<close>

datatype mutation = Patch "edit list" | InsertAt int string

definition mutate :: "env \<Rightarrow> state \<Rightarrow> string \<Rightarrow> mutation \<Rightarrow> (error + string) \<times> state" where
  "mutate e s filePath m =
     (case m of
        Patch edits \<Rightarrow> applyFileEdits e s filePath edits False
      | InsertAt insertLine newText' \<Rightarrow> insertAtLine e s filePath insertLine newText')"

text \<open>
  The content that a mutating operation passes to \<open>saveToHistory\<close> in the state \<open>s\<close>:
  the content of the file, normalized by \<open>applyFileEdits\<close> and as it is by
  \<open>insertAtLine\<close>.
\<close>

definition snapshotOf :: "state \<Rightarrow> string \<Rightarrow> mutation \<Rightarrow> string" where
  "snapshotOf s filePath m =
     (case files s filePath of
        None \<Rightarrow> []
      | Some raw \<Rightarrow> (case m of Patch edits \<Rightarrow> normalizeLineEndings raw | InsertAt i t \<Rightarrow> raw))"

text \<open>The state after a sequence of mutating operations, and the snapshots they save.\<close>

fun runMutations :: "env \<Rightarrow> state \<Rightarrow> string \<Rightarrow> mutation list \<Rightarrow> state" where
  "runMutations e s filePath [] = s"
| "runMutations e s filePath (m # ms) = runMutations e (snd (mutate e s filePath m)) filePath ms"

fun snapshots :: "env \<Rightarrow> state \<Rightarrow> string \<Rightarrow> mutation list \<Rightarrow> string list" where
  "snapshots e s filePath [] = []"
| "snapshots e s filePath (m # ms) =
     snapshotOf s filePath m # snapshots e (snd (mutate e s filePath m)) filePath ms"

text \<open>The state after \<open>n\<close> requests \<open>undo_edit\<close> for one path.\<close>

fun undoTimes :: "env \<Rightarrow> state \<Rightarrow> string \<Rightarrow> string \<Rightarrow> nat \<Rightarrow> state" where
  "undoTimes e s validPath requested 0 = s"
| "undoTimes e s validPath requested (Suc n) =
     snd (undo_edit e (undoTimes e s validPath requested n) validPath requested)"

text \<open>Every stack of the history holds at most \<^const>\<open>MAX_HISTORY_SIZE\<close> snapshots.\<close>

definition historyBounded :: "state \<Rightarrow> bool" where
  "historyBounded s = (\<forall>p h. editHistory s p = Some h \<longrightarrow> length h \<le> MAX_HISTORY_SIZE)"

text \<open>\<open>editHistory.get(filePath) || []\<close>.\<close>

definition historyOf :: "state \<Rightarrow> string \<Rightarrow> string list" where
  "historyOf s filePath = (case editHistory s filePath of None \<Rightarrow> [] | Some h \<Rightarrow> h)"

section \<open>Files as bytes\<close>

text \<open>
  On disk a file is a sequence of bytes, and a string of the program is a sequence of 16-bit
  code units. \<open>fs.readFile(path, 'utf-8')\<close> decodes the bytes as UTF-8 and puts U+FFFD
  in the place of every run of bytes that is not UTF-8; \<open>fs.writeFile(path, content,
  'utf-8')\<close> encodes the string as UTF-8. This section has \<open>applyFileEdits\<close> and the
  request \<open>undo_edit\<close> once more, on files as bytes and on strings of 16-bit code units,
  with all the white space of \<open>trim\<close> and \<open>\s\<close>; the names end in \<open>16\<close>.
\<close>

type_synonym byte = "8 word"

type_synonym codeUnit = "16 word"

text \<open>
  The UTF-8 decoder, byte by byte, to code points: \<open>bytesNeeded\<close> continuation bytes
  are still expected, the next one between \<open>lower\<close> and \<open>upper\<close>. A byte that cannot
  continue the sequence ends it with U+FFFD and is decoded again as the first byte of a
  sequence.
\<close>

fun decodeUtf8 :: "nat \<Rightarrow> nat \<Rightarrow> nat \<Rightarrow> nat \<Rightarrow> byte list \<Rightarrow> nat list" where
  "decodeUtf8 codePoint bytesNeeded lower upper [] = (if bytesNeeded = 0 then [] else [0xFFFD])"
| "decodeUtf8 codePoint bytesNeeded lower upper (b # bs) =
     (if bytesNeeded \<noteq> 0 \<and> lower \<le> unat b \<and> unat b \<le> upper then
        (if bytesNeeded = 1 then (codePoint * 64 + unat b mod 64) # decodeUtf8 0 0 0x80 0xBF bs
         else decodeUtf8 (codePoint * 64 + unat b mod 64) (bytesNeeded - 1) 0x80 0xBF bs)
      else
        (if bytesNeeded \<noteq> 0 then [0xFFFD] else [])
        @ (if unat b \<le> 0x7F then unat b # decodeUtf8 0 0 0x80 0xBF bs
           else if 0xC2 \<le> unat b \<and> unat b \<le> 0xDF then
             decodeUtf8 (unat b mod 32) 1 0x80 0xBF bs
           else if 0xE0 \<le> unat b \<and> unat b \<le> 0xEF then
             decodeUtf8 (unat b mod 16) 2 (if unat b = 0xE0 then 0xA0 else 0x80)
               (if unat b = 0xED then 0x9F else 0xBF) bs
           else if 0xF0 \<le> unat b \<and> unat b \<le> 0xF4 then
             decodeUtf8 (unat b mod 8) 3 (if unat b = 0xF0 then 0x90 else 0x80)
               (if unat b = 0xF4 then 0x8F else 0xBF) bs
           else 0xFFFD # decodeUtf8 0 0 0x80 0xBF bs))"

text \<open>The code units of a code point: itself, or a pair of surrogates.\<close>

definition toCodeUnits :: "nat \<Rightarrow> codeUnit list" where
  "toCodeUnits codePoint =
     (if codePoint < 0x10000 then [of_nat codePoint]
      else [of_nat (0xD800 + (codePoint - 0x10000) div 0x400),
            of_nat (0xDC00 + (codePoint - 0x10000) mod 0x400)])"

definition utf8Decode :: "byte list \<Rightarrow> codeUnit list" where
  "utf8Decode bytes = concat (map toCodeUnits (decodeUtf8 0 0 0x80 0xBF bytes))"

text \<open>
  The code points of a string: a high surrogate and the low surrogate after it make one
  code point, and a surrogate without its partner becomes U+FFFD.
\<close>

definition isSurrogate :: "codeUnit \<Rightarrow> bool" where
  "isSurrogate u = (0xD800 \<le> unat u \<and> unat u \<le> 0xDFFF)"

fun codePoints :: "codeUnit list \<Rightarrow> nat list" where
  "codePoints [] = []"
| "codePoints [u] = [if isSurrogate u then 0xFFFD else unat u]"
| "codePoints (u # v # rest) =
     (if 0xD800 \<le> unat u \<and> unat u \<le> 0xDBFF \<and> 0xDC00 \<le> unat v \<and> unat v \<le> 0xDFFF then
        (0x10000 + (unat u - 0xD800) * 0x400 + (unat v - 0xDC00)) # codePoints rest
      else (if isSurrogate u then 0xFFFD else unat u) # codePoints (v # rest))"

text \<open>The bytes of a code point in UTF-8.\<close>

definition utf8Bytes :: "nat \<Rightarrow> byte list" where
  "utf8Bytes codePoint =
     map of_nat
       (if codePoint < 0x80 then [codePoint]
        else if codePoint < 0x800 then [0xC0 + codePoint div 0x40, 0x80 + codePoint mod 0x40]
        else if codePoint < 0x10000 then
          [0xE0 + codePoint div 0x1000, 0x80 + codePoint div 0x40 mod 0x40,
           0x80 + codePoint mod 0x40]
        else
          [0xF0 + codePoint div 0x40000, 0x80 + codePoint div 0x1000 mod 0x40,
           0x80 + codePoint div 0x40 mod 0x40, 0x80 + codePoint mod 0x40])"

definition utf8Encode :: "codeUnit list \<Rightarrow> byte list" where
  "utf8Encode s = concat (map utf8Bytes (codePoints s))"

text \<open>A string of the 8-bit model as a string of 16-bit code units.\<close>

definition toJS :: "string \<Rightarrow> codeUnit list" where
  "toJS s = map of_char s"

subsection \<open>The string primitives on 16-bit code units\<close>

fun includes16 :: "codeUnit list \<Rightarrow> codeUnit list \<Rightarrow> bool" where
  "includes16 [] t = (t = [])"
| "includes16 (c # cs) t = (prefix t (c # cs) \<or> includes16 cs t)"

fun indexOf16 :: "codeUnit list \<Rightarrow> codeUnit list \<Rightarrow> nat option" where
  "indexOf16 [] t = (if t = [] then Some 0 else None)"
| "indexOf16 (c # cs) t =
     (if prefix t (c # cs) then Some 0 else map_option Suc (indexOf16 cs t))"

text \<open>The code units \<open>0x24\<close>, \<open>0x26\<close>, \<open>0x60\<close> and \<open>0x27\<close> are \<open>$\<close>, \<open>&\<close>, the backtick and the apostrophe.\<close>

fun getSubstitution16 ::
  "codeUnit list \<Rightarrow> codeUnit list \<Rightarrow> codeUnit list \<Rightarrow> codeUnit list \<Rightarrow> codeUnit list" where
  "getSubstitution16 matched pre post [] = []"
| "getSubstitution16 matched pre post [c] = [c]"
| "getSubstitution16 matched pre post (c # d # rest) =
     (if c = 0x24 \<and> d = 0x24 then 0x24 # getSubstitution16 matched pre post rest
      else if c = 0x24 \<and> d = 0x26 then matched @ getSubstitution16 matched pre post rest
      else if c = 0x24 \<and> d = 0x60 then pre @ getSubstitution16 matched pre post rest
      else if c = 0x24 \<and> d = 0x27 then post @ getSubstitution16 matched pre post rest
      else c # getSubstitution16 matched pre post (d # rest))"

definition replace16 :: "codeUnit list \<Rightarrow> codeUnit list \<Rightarrow> codeUnit list \<Rightarrow> codeUnit list" where
  "replace16 s pattern replacement =
     (case indexOf16 s pattern of
        None \<Rightarrow> s
      | Some i \<Rightarrow>
          take i s
          @ getSubstitution16 pattern (take i s) (drop (i + length pattern) s) replacement
          @ drop (i + length pattern) s)"

fun split16 :: "codeUnit \<Rightarrow> codeUnit list \<Rightarrow> codeUnit list list" where
  "split16 sep [] = [[]]"
| "split16 sep (c # cs) =
     (if c = sep then [] # split16 sep cs
      else (case split16 sep cs of
              [] \<Rightarrow> [[c]]
            | l # ls \<Rightarrow> (c # l) # ls))"

fun join16 :: "codeUnit \<Rightarrow> codeUnit list list \<Rightarrow> codeUnit list" where
  "join16 sep [] = []"
| "join16 sep [l] = l"
| "join16 sep (l # m # ls) = l @ sep # join16 sep (m # ls)"

text \<open>
  The white space and the line terminators of ECMAScript: what \<open>trim\<close> and
  \<open>trimStart\<close> remove and \<open>\s\<close> matches.
\<close>

definition isWhitespace16 :: "codeUnit \<Rightarrow> bool" where
  "isWhitespace16 c =
     ((0x0009 \<le> unat c \<and> unat c \<le> 0x000D) \<or> c = 0x0020 \<or> c = 0x00A0 \<or> c = 0x1680
      \<or> (0x2000 \<le> unat c \<and> unat c \<le> 0x200A) \<or> c = 0x2028 \<or> c = 0x2029 \<or> c = 0x202F
      \<or> c = 0x205F \<or> c = 0x3000 \<or> c = 0xFEFF)"

definition trimStart16 :: "codeUnit list \<Rightarrow> codeUnit list" where
  "trimStart16 s = dropWhile isWhitespace16 s"

definition trimEnd16 :: "codeUnit list \<Rightarrow> codeUnit list" where
  "trimEnd16 s = rev (dropWhile isWhitespace16 (rev s))"

definition trim16 :: "codeUnit list \<Rightarrow> codeUnit list" where
  "trim16 s = trimEnd16 (trimStart16 s)"

definition leadingWhitespace16 :: "codeUnit list \<Rightarrow> codeUnit list" where
  "leadingWhitespace16 s = takeWhile isWhitespace16 s"

subsection \<open>The patch engine on 16-bit code units\<close>

fun normalizeLineEndings16 :: "codeUnit list \<Rightarrow> codeUnit list" where
  "normalizeLineEndings16 [] = []"
| "normalizeLineEndings16 [c] = [c]"
| "normalizeLineEndings16 (c # d # rest) =
     (if c = 0x0D \<and> d = 0x0A then 0x0A # normalizeLineEndings16 rest
      else c # normalizeLineEndings16 (d # rest))"

record edit16 =
  oldText16 :: "codeUnit list"
  newText16 :: "codeUnit list"

datatype error16 =
    NoMatchFound16 "codeUnit list"
  | NoHistory16 string
  | FsError16

definition isMatch16 :: "codeUnit list list \<Rightarrow> codeUnit list list \<Rightarrow> bool" where
  "isMatch16 oldLines potentialMatch =
     list_all2 (\<lambda>oldLine contentLine. trim16 oldLine = trim16 contentLine)
       oldLines potentialMatch"

definition newLine16 ::
  "codeUnit list \<Rightarrow> codeUnit list list \<Rightarrow> nat \<Rightarrow> codeUnit list \<Rightarrow> codeUnit list" where
  "newLine16 originalIndent oldLines j line =
     (if j = 0 then originalIndent @ trimStart16 line
      else
        let oldIndent = (if j < length oldLines then leadingWhitespace16 (oldLines ! j) else []);
            newIndent = leadingWhitespace16 line
        in if oldIndent \<noteq> [] \<and> newIndent \<noteq> [] then
             let relativeIndent = int (length newIndent) - int (length oldIndent)
             in originalIndent @ replicate (nat (max 0 relativeIndent)) 0x20 @ trimStart16 line
           else line)"

definition newLines16 ::
  "codeUnit list \<Rightarrow> codeUnit list list \<Rightarrow> codeUnit list \<Rightarrow> codeUnit list list" where
  "newLines16 originalIndent oldLines normalizedNew =
     (let ls = split16 0x0A normalizedNew
      in map (\<lambda>(j, line). newLine16 originalIndent oldLines j line) (zip [0 ..< length ls] ls))"

function fuzzyLoop16 ::
  "codeUnit list list \<Rightarrow> codeUnit list list \<Rightarrow> codeUnit list \<Rightarrow> nat \<Rightarrow> codeUnit list option" where
  "fuzzyLoop16 oldLines contentLines normalizedNew i =
     (if i + length oldLines \<le> length contentLines then
        (if isMatch16 oldLines (slice contentLines i (i + length oldLines)) then
           let originalIndent = leadingWhitespace16 (contentLines ! i)
           in Some (join16 0x0A
                (splice contentLines i (length oldLines)
                   (newLines16 originalIndent oldLines normalizedNew)))
         else fuzzyLoop16 oldLines contentLines normalizedNew (Suc i))
      else None)"
  by pat_completeness auto
termination
  by (relation "measure (\<lambda>(oldLines, contentLines, normalizedNew, i). Suc (length contentLines) - i)")
    auto

definition applyEdit16 :: "codeUnit list \<Rightarrow> edit16 \<Rightarrow> error16 + codeUnit list" where
  "applyEdit16 modifiedContent e =
     (let normalizedOld = normalizeLineEndings16 (oldText16 e);
          normalizedNew = normalizeLineEndings16 (newText16 e)
      in if includes16 modifiedContent normalizedOld then
           Inr (replace16 modifiedContent normalizedOld normalizedNew)
         else
           (case fuzzyLoop16 (split16 0x0A normalizedOld) (split16 0x0A modifiedContent)
                   normalizedNew 0 of
              None \<Rightarrow> Inl (NoMatchFound16 (oldText16 e))
            | Some c \<Rightarrow> Inr c))"

fun applyEdits16 :: "codeUnit list \<Rightarrow> edit16 list \<Rightarrow> error16 + codeUnit list" where
  "applyEdits16 modifiedContent [] = Inr modifiedContent"
| "applyEdits16 modifiedContent (e # es) =
     (case applyEdit16 modifiedContent e of
        Inl err \<Rightarrow> Inl err
      | Inr c \<Rightarrow> applyEdits16 c es)"

subsection \<open>Reading, writing and undoing\<close>

text \<open>
  The bytes of every file and the global map \<open>editHistory\<close>, whose snapshots are strings
  of the program.
\<close>

record state16 =
  disk :: "string \<rightharpoonup> byte list"
  editHistory16 :: "string \<rightharpoonup> codeUnit list list"

text \<open>\<open>fs.readFile(filePath, 'utf-8')\<close>, with \<open>None\<close> when the promise is rejected.\<close>

definition readFile16 :: "state16 \<Rightarrow> string \<Rightarrow> codeUnit list option" where
  "readFile16 s filePath = map_option utf8Decode (disk s filePath)"

text \<open>\<open>fs.writeFile(filePath, content, 'utf-8')\<close>.\<close>

definition writeFile16 :: "state16 \<Rightarrow> string \<Rightarrow> codeUnit list \<Rightarrow> state16" where
  "writeFile16 s filePath content = s\<lparr>disk := (disk s)(filePath \<mapsto> utf8Encode content)\<rparr>"

text \<open>The function \<open>createTwoFilesPatch\<close> of the package \<open>diff\<close>, on strings of code units.\<close>

type_synonym patch16 =
  "codeUnit list \<Rightarrow> codeUnit list \<Rightarrow> codeUnit list \<Rightarrow> codeUnit list \<Rightarrow> codeUnit list \<Rightarrow> codeUnit list
   \<Rightarrow> codeUnit list"

definition createUnifiedDiff16 ::
  "patch16 \<Rightarrow> codeUnit list \<Rightarrow> codeUnit list \<Rightarrow> string \<Rightarrow> codeUnit list" where
  "createUnifiedDiff16 createTwoFilesPatch16 originalContent newContent filepath =
     (let normalizedOriginal = normalizeLineEndings16 originalContent;
          normalizedNew = normalizeLineEndings16 newContent
      in createTwoFilesPatch16 (toJS filepath) (toJS filepath) normalizedOriginal normalizedNew
           (toJS ''original'') (toJS ''modified''))"

definition saveToHistory16 :: "state16 \<Rightarrow> string \<Rightarrow> codeUnit list \<Rightarrow> state16" where
  "saveToHistory16 s filePath content =
     (let history = (case editHistory16 s filePath of None \<Rightarrow> [] | Some h \<Rightarrow> h);
          pushed = history @ [content];
          kept = (if length pushed > MAX_HISTORY_SIZE then tl pushed else pushed)
      in s\<lparr>editHistory16 := (editHistory16 s)(filePath \<mapsto> kept)\<rparr>)"

function numBackticks16 :: "codeUnit list \<Rightarrow> nat \<Rightarrow> nat" where
  "numBackticks16 diff n =
     (if includes16 diff (replicate n 0x60) then numBackticks16 diff (Suc n) else n)"
  by pat_completeness auto
termination
proof (relation "measure (\<lambda>(diff, n). Suc (length diff) - n)")
  show "wf (measure (\<lambda>(diff, n). Suc (length diff) - n))"
    by simp
next
  fix diff :: "codeUnit list" and n :: nat
  assume incl: "includes16 diff (replicate n 0x60)"
  have bound: "includes16 s t \<Longrightarrow> length t \<le> length s" for s t
    by (induction s) (auto dest: prefix_length_le)
  from bound [OF incl] have "n \<le> length diff"
    by simp
  then show "((diff, Suc n), (diff, n)) \<in> measure (\<lambda>(diff, n). Suc (length diff) - n)"
    by simp
qed

definition formatDiff16 :: "codeUnit list \<Rightarrow> codeUnit list \<Rightarrow> codeUnit list" where
  "formatDiff16 diff trailer =
     (let n = numBackticks16 diff 3
      in replicate n 0x60 @ toJS ''diff'' @ [0x0A] @ diff @ replicate n 0x60 @ trailer)"

definition applyFileEdits16 ::
  "patch16 \<Rightarrow> state16 \<Rightarrow> string \<Rightarrow> edit16 list \<Rightarrow> bool \<Rightarrow> (error16 + codeUnit list) \<times> state16" where
  "applyFileEdits16 createTwoFilesPatch16 s filePath edits dryRun =
     (case readFile16 s filePath of
        None \<Rightarrow> (Inl FsError16, s)
      | Some raw \<Rightarrow>
          let content = normalizeLineEndings16 raw;
              s1 = (if \<not> dryRun then saveToHistory16 s filePath content else s)
          in (case applyEdits16 content edits of
                Inl err \<Rightarrow> (Inl err, s1)
              | Inr modifiedContent \<Rightarrow>
                  let diff = createUnifiedDiff16 createTwoFilesPatch16 content modifiedContent
                               filePath;
                      formattedDiff = formatDiff16 diff [0x0A, 0x0A];
                      s2 = (if \<not> dryRun then writeFile16 s1 filePath modifiedContent else s1)
                  in (Inr formattedDiff, s2)))"

definition undo_edit16 ::
  "patch16 \<Rightarrow> state16 \<Rightarrow> string \<Rightarrow> string \<Rightarrow> (error16 + codeUnit list) \<times> state16" where
  "undo_edit16 createTwoFilesPatch16 s validPath requested =
     (case editHistory16 s validPath of
        None \<Rightarrow> (Inl (NoHistory16 requested), s)
      | Some history \<Rightarrow>
          if history = [] then (Inl (NoHistory16 requested), s)
          else
            let previousContent = last history;
                s1 = s\<lparr>editHistory16 := (editHistory16 s)(validPath \<mapsto> butlast history)\<rparr>
            in (case readFile16 s1 validPath of
                  None \<Rightarrow> (Inl FsError16, s1)
                | Some currentContent \<Rightarrow>
                    let s2 = writeFile16 s1 validPath previousContent;
                        diff = createUnifiedDiff16 createTwoFilesPatch16 currentContent
                                 previousContent validPath
                    in (Inr (formatDiff16 diff
                               ([0x0A, 0x0A] @ toJS ''Reverted to previous version.'')), s2)))"

section \<open>Example inputs\<close>

text \<open>
  An environment with the allowed directory \<open>/a/allowed\<close> in mind: \<open>/a/allowed/link\<close> is
  a symbolic link to \<open>/etc/passwd\<close>, \<open>/tmp/link\<close> a symbolic link to
  \<open>/a/allowed/f.txt\<close>, and \<open>/a/allowed-evil\<close> a directory beside the allowed one. Its
  diff function only has to be some function.
\<close>

definition exampleEnv :: env where
  "exampleEnv =
     \<lparr>homedir = ''/home/user'',
      cwd = ''/a/allowed'',
      realpath = (\<lambda>p.
        if p = ''/a/allowed/link'' then Some ''/etc/passwd''
        else if p = ''/tmp/link'' then Some ''/a/allowed/f.txt''
        else if p \<in> {''/a'', ''/a/allowed'', ''/a/allowed/f.txt'', ''/a/allowed-evil'', ''/etc/passwd''}
        then Some p
        else None),
      createTwoFilesPatch = (\<lambda>oldFileName newFileName oldStr newStr oldHeader newHeader.
        ''-'' @ oldStr @ [CHR 0x0A] @ ''+'' @ newStr @ [CHR 0x0A])\<rparr>"

definition exampleState :: "string \<Rightarrow> state" where
  "exampleState content =
     \<lparr>files = [''/a/allowed/f.txt'' \<mapsto> content], editHistory = Map.empty\<rparr>"

text \<open>
  Eleven mutating operations on the file \<open>/a/allowed/f.txt\<close>: insertions and patches.
\<close>

definition elevenMutations :: "mutation list" where
  "elevenMutations =
     [InsertAt 0 ''1'', InsertAt 0 ''2'', InsertAt 0 ''3'', InsertAt 0 ''4'', InsertAt 0 ''5'',
      Patch [\<lparr>oldText = ''5'', newText = ''6''\<rparr>], Patch [\<lparr>oldText = ''6'', newText = ''7''\<rparr>],
      Patch [\<lparr>oldText = ''7'', newText = ''8''\<rparr>], Patch [\<lparr>oldText = ''8'', newText = ''9''\<rparr>],
      InsertAt 9 ''10'', InsertAt 0 ''11'']"


text \<open>A state in which the stack of \<open>/a/allowed/f.txt\<close> holds ten snapshots.\<close>

definition fullState :: state where
  "fullState =
     \<lparr>files = [''/a/allowed/f.txt'' \<mapsto> ''k''],
      editHistory = [''/a/allowed/f.txt'' \<mapsto>
        [''a'', ''b'', ''c'', ''d'', ''e'', ''f'', ''g'', ''h'', ''i'', ''j'']]\<rparr>"

text \<open>
  A diff function on strings of code units, and two states with the file
  \<open>/a/allowed/f.txt\<close>: its bytes are \<open>61 E9 0A 62\<close>, which is not UTF-8, or
  \<open>61 C3 A9 0A 62\<close>, the line \<open>a\<close>, \<open>e\<close> with an acute accent, then the line \<open>b\<close>.
\<close>

definition examplePatch16 :: patch16 where
  "examplePatch16 oldFileName newFileName oldStr newStr oldHeader newHeader =
     [0x2D] @ oldStr @ [0x0A, 0x2B] @ newStr @ [0x0A]"

definition exampleDisk :: "byte list \<Rightarrow> state16" where
  "exampleDisk bytes = \<lparr>disk = [''/a/allowed/f.txt'' \<mapsto> bytes], editHistory16 = Map.empty\<rparr>"

section \<open>Facts about the string primitives\<close>



lemma getSubstitution_no_dollar:
  "CHR ''$'' \<notin> set r \<Longrightarrow> getSubstitution m b a r = r"
  by (induction m b a r rule: getSubstitution.induct) auto

lemma normalizeLineEndings_id:
  "\<not> str_includes s [CHR 0x0D, CHR 0x0A] \<Longrightarrow> normalizeLineEndings s = s"
  by (induction s rule: normalizeLineEndings.induct) auto

lemmas string_defs =
  isMatch_def newLines_def newLine_def slice_def splice_def trim_def trimStart_def
  trimEnd_def leadingWhitespace_def isWhitespace_def

lemma indent_example:
  "applyEdits ''  foo\<newline>  bar\<newline>''
     [\<lparr>oldText = ''foo\<newline>bar'', newText = ''baz\<newline>qux''\<rparr>]
   = Inr ''  baz\<newline>qux\<newline>''"
  by (simp add: applyEdit_def string_defs)

section \<open>The patch engine\<close>

text \<open>
  Claim C3, as stated: for the buffer \<open>"  foo\n  bar\n"\<close> and the edit with \<open>oldText\<close>
  \<open>"foo\nbar"\<close> and \<open>newText\<close> \<open>"baz\nqux"\<close> the result would be \<open>"  baz\n  qux\n"\<close>,
  every replacement line receiving the indentation of the first line of the window. The
  code does not produce that buffer.
\<close>

theorem C3_counterexample:
  "applyEdits ''  foo\<newline>  bar\<newline>''
     [\<lparr>oldText = ''foo\<newline>bar'', newText = ''baz\<newline>qux''\<rparr>]
   \<noteq> Inr ''  baz\<newline>  qux\<newline>''"
  by (simp add: applyEdit_def string_defs)

text \<open>
  Claim C3, amended: for that buffer and edit the result is \<open>"  baz\nqux\n"\<close>, in memory
  and in the file written. The first replacement line is the indentation of the first line
  of the window followed by the line without its leading white space. A later replacement
  line \<open>j\<close> is left as it is unless both the old line \<open>j\<close> and the new line \<open>j\<close> begin
  with white space; when both do, it is the indentation of the first line of the window,
  then as many spaces as the new indentation is longer than the old one, then the line
  without its leading white space.
\<close>

theorem C3_indentation:
  "applyEdits ''  foo\<newline>  bar\<newline>''
     [\<lparr>oldText = ''foo\<newline>bar'', newText = ''baz\<newline>qux''\<rparr>]
   = Inr ''  baz\<newline>qux\<newline>''
   \<and> (files s p = Some ''  foo\<newline>  bar\<newline>'' \<longrightarrow>
        files (snd (applyFileEdits e s p
          [\<lparr>oldText = ''foo\<newline>bar'', newText = ''baz\<newline>qux''\<rparr>] False)) p
        = Some ''  baz\<newline>qux\<newline>'')
   \<and> newLine originalIndent oldLines 0 line = originalIndent @ trimStart line
   \<and> (0 < j \<and> (length oldLines \<le> j \<or> leadingWhitespace (oldLines ! j) = []
                \<or> leadingWhitespace line = []) \<longrightarrow>
        newLine originalIndent oldLines j line = line)
   \<and> (0 < j \<and> j < length oldLines \<and> leadingWhitespace (oldLines ! j) \<noteq> []
        \<and> leadingWhitespace line \<noteq> [] \<longrightarrow>
        newLine originalIndent oldLines j line
        = originalIndent
          @ replicate (length (leadingWhitespace line) - length (leadingWhitespace (oldLines ! j)))
              CHR 0x20
          @ trimStart line)"
proof -
  have written: "files (snd (applyFileEdits e s p
          [\<lparr>oldText = ''foo\<newline>bar'', newText = ''baz\<newline>qux''\<rparr>] False)) p
        = Some ''  baz\<newline>qux\<newline>''"
    if "files s p = Some ''  foo\<newline>  bar\<newline>''"
    using that indent_example by (simp add: applyFileEdits_def writeFile_def Let_def)
  have first: "newLine originalIndent oldLines 0 line = originalIndent @ trimStart line"
    by (simp add: newLine_def)
  have unchanged: "newLine originalIndent oldLines j line = line"
    if "0 < j" "length oldLines \<le> j \<or> leadingWhitespace (oldLines ! j) = []
                \<or> leadingWhitespace line = []"
    using that by (auto simp: newLine_def Let_def)
  have relative: "newLine originalIndent oldLines j line
        = originalIndent
          @ replicate (length (leadingWhitespace line) - length (leadingWhitespace (oldLines ! j)))
              CHR 0x20
          @ trimStart line"
    if "0 < j" "j < length oldLines" "leadingWhitespace (oldLines ! j) \<noteq> []"
       "leadingWhitespace line \<noteq> []"
  proof -
    have "nat (max 0 (int (length (leadingWhitespace line))
                      - int (length (leadingWhitespace (oldLines ! j)))))
          = length (leadingWhitespace line) - length (leadingWhitespace (oldLines ! j))"
      by simp
    with that show ?thesis
      by (simp add: newLine_def Let_def)
  qed
  from indent_example written first unchanged relative show ?thesis
    by blast
qed

text \<open>The amended claim C3 at the file \<open>/a/allowed/f.txt\<close> and at two second lines.\<close>

theorem C3_indentation_witness:
  "files (exampleState ''  foo\<newline>  bar\<newline>'') ''/a/allowed/f.txt''
     = Some ''  foo\<newline>  bar\<newline>''
   \<and> files (snd (applyFileEdits exampleEnv (exampleState ''  foo\<newline>  bar\<newline>'')
        ''/a/allowed/f.txt''
        [\<lparr>oldText = ''foo\<newline>bar'', newText = ''baz\<newline>qux''\<rparr>] False)) ''/a/allowed/f.txt''
     = Some ''  baz\<newline>qux\<newline>''
   \<and> newLine ''  '' [''foo'', ''bar''] 1 ''qux'' = ''qux''
   \<and> newLine ''  '' [''foo'', '' bar''] 1 ''   qux'' = ''    qux''"
  using C3_indentation [of "exampleState ''  foo\<newline>  bar\<newline>''" "''/a/allowed/f.txt''"
      exampleEnv "''  ''" "[''foo'', ''bar'']" "''qux''" 1]
    C3_indentation [of "exampleState ''  foo\<newline>  bar\<newline>''" "''/a/allowed/f.txt''"
      exampleEnv "''  ''" "[''foo'', '' bar'']" "''   qux''" 1]
  by (simp add: exampleState_def leadingWhitespace_def isWhitespace_def trimStart_def)



subsection \<open>The fuzzy pass\<close>

declare fuzzyLoop.simps [simp del]

lemma fuzzyLoop_Some:
  "fuzzyLoop oldLines contentLines normalizedNew i = Some r \<Longrightarrow>
     \<exists>k\<ge>i. k + length oldLines \<le> length contentLines
        \<and> isMatch oldLines (slice contentLines k (k + length oldLines))
        \<and> (\<forall>m. i \<le> m \<and> m < k \<longrightarrow>
              \<not> isMatch oldLines (slice contentLines m (m + length oldLines)))
        \<and> r = join CHR 0x0A (splice contentLines k (length oldLines)
                  (newLines (leadingWhitespace (contentLines ! k)) oldLines normalizedNew))"
proof (induction oldLines contentLines normalizedNew i rule: fuzzyLoop.induct)
  case (1 oldLines contentLines normalizedNew i)
  from "1.prems" have bound: "i + length oldLines \<le> length contentLines"
    by (subst (asm) fuzzyLoop.simps) (simp split: if_splits)
  show ?case
  proof (cases "isMatch oldLines (slice contentLines i (i + length oldLines))")
    case True
    with "1.prems" bound
    have "r = join CHR 0x0A (splice contentLines i (length oldLines)
                  (newLines (leadingWhitespace (contentLines ! i)) oldLines normalizedNew))"
      by (subst (asm) fuzzyLoop.simps) (simp add: Let_def)
    with True bound show ?thesis
      by (intro exI [of _ i]) auto
  next
    case False
    with "1.prems" bound
    have "fuzzyLoop oldLines contentLines normalizedNew (Suc i) = Some r"
      by (subst (asm) fuzzyLoop.simps) simp
    from "1.IH" [OF bound False this] obtain k where k: "Suc i \<le> k"
      "k + length oldLines \<le> length contentLines"
      "isMatch oldLines (slice contentLines k (k + length oldLines))"
      "\<forall>m. Suc i \<le> m \<and> m < k \<longrightarrow>
              \<not> isMatch oldLines (slice contentLines m (m + length oldLines))"
      "r = join CHR 0x0A (splice contentLines k (length oldLines)
                  (newLines (leadingWhitespace (contentLines ! k)) oldLines normalizedNew))"
      by blast
    have "\<not> isMatch oldLines (slice contentLines m (m + length oldLines))"
      if "i \<le> m" "m < k" for m
    proof (cases "m = i")
      case True
      with False show ?thesis by simp
    next
      case False
      with that k(4) show ?thesis by simp
    qed
    with k show ?thesis
      by (intro exI [of _ k]) auto
  qed
qed

lemma fuzzyLoop_None:
  "fuzzyLoop oldLines contentLines normalizedNew i = None \<Longrightarrow> i \<le> k \<Longrightarrow>
     k + length oldLines \<le> length contentLines \<Longrightarrow>
     \<not> isMatch oldLines (slice contentLines k (k + length oldLines))"
proof (induction oldLines contentLines normalizedNew i rule: fuzzyLoop.induct)
  case (1 oldLines contentLines normalizedNew i)
  from "1.prems" have bound: "i + length oldLines \<le> length contentLines"
    by simp
  with "1.prems"(1) have here: "\<not> isMatch oldLines (slice contentLines i (i + length oldLines))"
    by (subst (asm) fuzzyLoop.simps) (simp add: Let_def split: if_splits)
  with "1.prems"(1) bound
  have rest: "fuzzyLoop oldLines contentLines normalizedNew (Suc i) = None"
    by (subst (asm) fuzzyLoop.simps) simp
  show ?case
  proof (cases "k = i")
    case True
    with here show ?thesis by simp
  next
    case False
    with "1.prems" have "Suc i \<le> k" by simp
    from "1.IH" [OF bound here rest this "1.prems"(3)] show ?thesis .
  qed
qed

text \<open>
  Claim C5: when the normalized \<open>oldText\<close> does not occur in the buffer, the edit fails
  with \<open>NoMatchFound\<close> exactly when no window of \<open>length oldLines\<close> buffer lines matches
  line by line after trimming, and otherwise replaces the matching window of least index.
  For the buffer lines \<open>["  foo", "  bar", "  foo", "  bar"]\<close> and \<open>oldText\<close>
  \<open>"foo\nbar"\<close> the first pair is replaced and the second pair stays, for every
  replacement text.
\<close>

theorem C5_first_window:
  "(\<not> str_includes buffer (normalizeLineEndings (oldText ed)) \<longrightarrow>
      (case applyEdit buffer ed of
         Inl err \<Rightarrow>
           err = NoMatchFound (oldText ed)
           \<and> (\<forall>k. k + length (split CHR 0x0A (normalizeLineEndings (oldText ed)))
                    \<le> length (split CHR 0x0A buffer) \<longrightarrow>
                \<not> isMatch (split CHR 0x0A (normalizeLineEndings (oldText ed)))
                    (slice (split CHR 0x0A buffer) k
                       (k + length (split CHR 0x0A (normalizeLineEndings (oldText ed))))))
       | Inr r \<Rightarrow>
           (\<exists>i. i + length (split CHR 0x0A (normalizeLineEndings (oldText ed)))
                   \<le> length (split CHR 0x0A buffer)
              \<and> isMatch (split CHR 0x0A (normalizeLineEndings (oldText ed)))
                    (slice (split CHR 0x0A buffer) i
                       (i + length (split CHR 0x0A (normalizeLineEndings (oldText ed)))))
              \<and> (\<forall>k<i. \<not> isMatch (split CHR 0x0A (normalizeLineEndings (oldText ed)))
                    (slice (split CHR 0x0A buffer) k
                       (k + length (split CHR 0x0A (normalizeLineEndings (oldText ed))))))
              \<and> r = join CHR 0x0A
                    (splice (split CHR 0x0A buffer) i
                       (length (split CHR 0x0A (normalizeLineEndings (oldText ed))))
                       (newLines (leadingWhitespace (split CHR 0x0A buffer ! i))
                          (split CHR 0x0A (normalizeLineEndings (oldText ed)))
                          (normalizeLineEndings (newText ed)))))))
   \<and> applyEdit ''  foo\<newline>  bar\<newline>  foo\<newline>  bar''
         \<lparr>oldText = ''foo\<newline>bar'', newText = replacement\<rparr>
       = Inr (join CHR 0x0A
           (newLines ''  '' [''foo'', ''bar''] (normalizeLineEndings replacement)
            @ [''  foo'', ''  bar'']))"
proof (intro conjI impI)
  assume noExact: "\<not> str_includes buffer (normalizeLineEndings (oldText ed))"
  define ol where "ol = split CHR 0x0A (normalizeLineEndings (oldText ed))"
  define cl where "cl = split CHR 0x0A buffer"
  define nw where "nw = normalizeLineEndings (newText ed)"
  show "(case applyEdit buffer ed of
         Inl err \<Rightarrow>
           err = NoMatchFound (oldText ed)
           \<and> (\<forall>k. k + length (split CHR 0x0A (normalizeLineEndings (oldText ed)))
                    \<le> length (split CHR 0x0A buffer) \<longrightarrow>
                \<not> isMatch (split CHR 0x0A (normalizeLineEndings (oldText ed)))
                    (slice (split CHR 0x0A buffer) k
                       (k + length (split CHR 0x0A (normalizeLineEndings (oldText ed))))))
       | Inr r \<Rightarrow>
           (\<exists>i. i + length (split CHR 0x0A (normalizeLineEndings (oldText ed)))
                   \<le> length (split CHR 0x0A buffer)
              \<and> isMatch (split CHR 0x0A (normalizeLineEndings (oldText ed)))
                    (slice (split CHR 0x0A buffer) i
                       (i + length (split CHR 0x0A (normalizeLineEndings (oldText ed)))))
              \<and> (\<forall>k<i. \<not> isMatch (split CHR 0x0A (normalizeLineEndings (oldText ed)))
                    (slice (split CHR 0x0A buffer) k
                       (k + length (split CHR 0x0A (normalizeLineEndings (oldText ed))))))
              \<and> r = join CHR 0x0A
                    (splice (split CHR 0x0A buffer) i
                       (length (split CHR 0x0A (normalizeLineEndings (oldText ed))))
                       (newLines (leadingWhitespace (split CHR 0x0A buffer ! i))
                          (split CHR 0x0A (normalizeLineEndings (oldText ed)))
                          (normalizeLineEndings (newText ed))))))"
  proof (cases "fuzzyLoop ol cl nw 0")
    case None
    with noExact have "applyEdit buffer ed = Inl (NoMatchFound (oldText ed))"
      by (simp add: applyEdit_def ol_def cl_def nw_def)
    moreover from None have "\<forall>k. k + length ol \<le> length cl \<longrightarrow>
        \<not> isMatch ol (slice cl k (k + length ol))"
      using fuzzyLoop_None by blast
    ultimately show ?thesis
      by (simp add: ol_def cl_def)
  next
    case (Some r)
    with noExact have "applyEdit buffer ed = Inr r"
      by (simp add: applyEdit_def ol_def cl_def nw_def)
    moreover from fuzzyLoop_Some [OF Some]
    have "\<exists>i. i + length ol \<le> length cl \<and> isMatch ol (slice cl i (i + length ol))
        \<and> (\<forall>k<i. \<not> isMatch ol (slice cl k (k + length ol)))
        \<and> r = join CHR 0x0A (splice cl i (length ol)
                  (newLines (leadingWhitespace (cl ! i)) ol nw))"
      by auto
    ultimately show ?thesis
      by (simp add: ol_def cl_def nw_def)
  qed
next
  show "applyEdit ''  foo\<newline>  bar\<newline>  foo\<newline>  bar''
         \<lparr>oldText = ''foo\<newline>bar'', newText = replacement\<rparr>
       = Inr (join CHR 0x0A
           (newLines ''  '' [''foo'', ''bar''] (normalizeLineEndings replacement)
            @ [''  foo'', ''  bar'']))"
    by (simp add: applyEdit_def fuzzyLoop.simps [of _ _ _ 0] isMatch_def slice_def splice_def
        trim_def trimStart_def trimEnd_def leadingWhitespace_def isWhitespace_def)
qed

text \<open>Claim C5 at that buffer: both pairs match, and the first is replaced.\<close>

theorem C5_first_window_witness:
  "\<not> str_includes ''  foo\<newline>  bar\<newline>  foo\<newline>  bar'' ''foo\<newline>bar''
   \<and> isMatch [''foo'', ''bar''] (slice [''  foo'', ''  bar'', ''  foo'', ''  bar''] 0 2)
   \<and> isMatch [''foo'', ''bar''] (slice [''  foo'', ''  bar'', ''  foo'', ''  bar''] 2 4)
   \<and> applyEdit ''  foo\<newline>  bar\<newline>  foo\<newline>  bar''
         \<lparr>oldText = ''foo\<newline>bar'', newText = ''baz''\<rparr>
       = Inr ''  baz\<newline>  foo\<newline>  bar''"
  using C5_first_window [of "''  foo\<newline>  bar\<newline>  foo\<newline>  bar''"
      "\<lparr>oldText = ''foo\<newline>bar'', newText = ''baz''\<rparr>" "''baz''"]
  by (simp add: string_defs)

subsection \<open>Replacement patterns in the exact pass\<close>

text \<open>A replacement without a dollar sign is inserted as it is.\<close>

lemma exact_pass_verbatim:
  assumes "str_includes buffer (normalizeLineEndings (oldText ed))"
    and "CHR ''$'' \<notin> set (normalizeLineEndings (newText ed))"
  shows "applyEdit buffer ed
           = Inr (replaceLiteral buffer (normalizeLineEndings (oldText ed))
                    (normalizeLineEndings (newText ed)))"
  using assms
  by (simp add: applyEdit_def replace_def replaceLiteral_def getSubstitution_no_dollar
      split: option.splits)


text \<open>
  Claim C10: there is a buffer and an edit whose \<open>oldText\<close> occurs in the buffer and
  whose result is not the buffer with the first occurrence replaced by \<open>newText\<close> taken
  literally. In \<open>"abc"\<close>, replacing \<open>"b"\<close> by \<open>"[$&]"\<close> gives \<open>"a[b]c"\<close>, not
  \<open>"a[$&]c"\<close>.
\<close>

theorem C10_replacement_patterns:
  "(\<exists>buffer ed.
      str_includes buffer (normalizeLineEndings (oldText ed))
      \<and> applyEdit buffer ed
          \<noteq> Inr (replaceLiteral buffer (normalizeLineEndings (oldText ed))
                   (normalizeLineEndings (newText ed))))
   \<and> str_includes ''abc'' ''b''
   \<and> applyEdit ''abc'' \<lparr>oldText = ''b'', newText = ''[$&]''\<rparr> = Inr ''a[b]c''
   \<and> replaceLiteral ''abc'' ''b'' ''[$&]'' = ''a[$&]c''"
proof -
  have occurs: "str_includes ''abc''
      (normalizeLineEndings (oldText \<lparr>oldText = ''b'', newText = ''[$&]''\<rparr>))"
    by simp
  have differs: "applyEdit ''abc'' \<lparr>oldText = ''b'', newText = ''[$&]''\<rparr>
      \<noteq> Inr (replaceLiteral ''abc''
               (normalizeLineEndings (oldText \<lparr>oldText = ''b'', newText = ''[$&]''\<rparr>))
               (normalizeLineEndings (newText \<lparr>oldText = ''b'', newText = ''[$&]''\<rparr>)))"
    by (simp add: applyEdit_def replace_def replaceLiteral_def)
  have concrete: "str_includes ''abc'' ''b''
      \<and> applyEdit ''abc'' \<lparr>oldText = ''b'', newText = ''[$&]''\<rparr> = Inr ''a[b]c''
      \<and> replaceLiteral ''abc'' ''b'' ''[$&]'' = ''a[$&]c''"
    by (simp add: applyEdit_def replace_def replaceLiteral_def)
  from occurs differs concrete show ?thesis
    by blast
qed

section \<open>Patches and the file on disk\<close>

lemma applyEdits_append:
  "applyEdits c (xs @ ys) =
     (case applyEdits c xs of Inl err \<Rightarrow> Inl err | Inr c' \<Rightarrow> applyEdits c' ys)"
  by (induction xs arbitrary: c) (auto split: sum.splits)

lemma fuzzyLoop_no_window:
  assumes "\<forall>k. k + length oldLines \<le> length contentLines \<longrightarrow>
             \<not> isMatch oldLines (slice contentLines k (k + length oldLines))"
  shows "fuzzyLoop oldLines contentLines normalizedNew 0 = None"
proof (cases "fuzzyLoop oldLines contentLines normalizedNew 0")
  case None
  then show ?thesis .
next
  case (Some r)
  from fuzzyLoop_Some [OF Some] assms show ?thesis
    by blast
qed

lemma applyFileEdits_error_keeps_files:
  "fst (applyFileEdits e s filePath edits dryRun) = Inl err \<Longrightarrow>
     files (snd (applyFileEdits e s filePath edits dryRun)) = files s"
  by (auto simp: applyFileEdits_def saveToHistory_def Let_def split: option.splits sum.splits)

text \<open>
  Claim C6: when the edits before \<open>ed\<close> succeed and \<open>ed\<close> has neither an exact
  occurrence nor a matching window in the buffer they leave, \<open>applyFileEdits\<close> fails with
  \<open>NoMatchFound\<close> and the content of every file is what it was before the call, for a dry
  run or not and whatever edits follow. More generally, no call that fails changes a file.
\<close>

theorem C6_failed_edit_writes_nothing:
  "(files s filePath = Some raw
     \<and> applyEdits (normalizeLineEndings raw) before = Inr buffer
     \<and> \<not> str_includes buffer (normalizeLineEndings (oldText ed))
     \<and> (\<forall>k. k + length (split CHR 0x0A (normalizeLineEndings (oldText ed)))
               \<le> length (split CHR 0x0A buffer) \<longrightarrow>
            \<not> isMatch (split CHR 0x0A (normalizeLineEndings (oldText ed)))
                (slice (split CHR 0x0A buffer) k
                   (k + length (split CHR 0x0A (normalizeLineEndings (oldText ed))))))
     \<longrightarrow> fst (applyFileEdits e s filePath (before @ ed # after) dryRun)
           = Inl (NoMatchFound (oldText ed))
         \<and> files (snd (applyFileEdits e s filePath (before @ ed # after) dryRun)) = files s)
   \<and> (fst (applyFileEdits e s filePath edits dryRun) = Inl err \<longrightarrow>
        files (snd (applyFileEdits e s filePath edits dryRun)) = files s)"
proof (intro conjI impI)
  assume h: "files s filePath = Some raw
     \<and> applyEdits (normalizeLineEndings raw) before = Inr buffer
     \<and> \<not> str_includes buffer (normalizeLineEndings (oldText ed))
     \<and> (\<forall>k. k + length (split CHR 0x0A (normalizeLineEndings (oldText ed)))
               \<le> length (split CHR 0x0A buffer) \<longrightarrow>
            \<not> isMatch (split CHR 0x0A (normalizeLineEndings (oldText ed)))
                (slice (split CHR 0x0A buffer) k
                   (k + length (split CHR 0x0A (normalizeLineEndings (oldText ed))))))"
  then have "fuzzyLoop (split CHR 0x0A (normalizeLineEndings (oldText ed)))
      (split CHR 0x0A buffer) (normalizeLineEndings (newText ed)) 0 = None"
    by (intro fuzzyLoop_no_window) blast
  with h have "applyEdit buffer ed = Inl (NoMatchFound (oldText ed))"
    by (simp add: applyEdit_def)
  with h have "applyEdits (normalizeLineEndings raw) (before @ ed # after)
      = Inl (NoMatchFound (oldText ed))"
    by (simp add: applyEdits_append)
  with h show failed: "fst (applyFileEdits e s filePath (before @ ed # after) dryRun)
      = Inl (NoMatchFound (oldText ed))"
    by (simp add: applyFileEdits_def Let_def)
  then show "files (snd (applyFileEdits e s filePath (before @ ed # after) dryRun)) = files s"
    by (rule applyFileEdits_error_keeps_files)
next
  assume "fst (applyFileEdits e s filePath edits dryRun) = Inl err"
  then show "files (snd (applyFileEdits e s filePath edits dryRun)) = files s"
    by (rule applyFileEdits_error_keeps_files)
qed

text \<open>
  Claim C6 at the file \<open>"a\nb"\<close> with two edits: the first succeeds in memory, the
  second finds nothing, and the file is unchanged.
\<close>

theorem C6_failed_edit_writes_nothing_witness:
  "files (exampleState ''a\<newline>b'') ''/a/allowed/f.txt'' = Some ''a\<newline>b''
   \<and> applyEdits ''a\<newline>b'' [\<lparr>oldText = ''a'', newText = ''x''\<rparr>] = Inr ''x\<newline>b''
   \<and> fst (applyFileEdits exampleEnv (exampleState ''a\<newline>b'') ''/a/allowed/f.txt''
        [\<lparr>oldText = ''a'', newText = ''x''\<rparr>, \<lparr>oldText = ''zzz'', newText = ''y''\<rparr>] False)
       = Inl (NoMatchFound ''zzz'')
   \<and> files (snd (applyFileEdits exampleEnv (exampleState ''a\<newline>b'') ''/a/allowed/f.txt''
        [\<lparr>oldText = ''a'', newText = ''x''\<rparr>, \<lparr>oldText = ''zzz'', newText = ''y''\<rparr>] False))
       = files (exampleState ''a\<newline>b'')"
proof -
  have noWindow: "\<forall>k. k + length (split CHR 0x0A (normalizeLineEndings ''zzz''))
               \<le> length (split CHR 0x0A ''x\<newline>b'') \<longrightarrow>
            \<not> isMatch (split CHR 0x0A (normalizeLineEndings ''zzz''))
                (slice (split CHR 0x0A ''x\<newline>b'') k
                   (k + length (split CHR 0x0A (normalizeLineEndings ''zzz''))))"
  proof (intro allI impI)
    fix k :: nat
    assume "k + length (split CHR 0x0A (normalizeLineEndings ''zzz''))
               \<le> length (split CHR 0x0A ''x\<newline>b'')"
    then have "k = 0 \<or> k = 1"
      by auto
    then show "\<not> isMatch (split CHR 0x0A (normalizeLineEndings ''zzz''))
                (slice (split CHR 0x0A ''x\<newline>b'') k
                   (k + length (split CHR 0x0A (normalizeLineEndings ''zzz''))))"
      by (auto simp: string_defs)
  qed
  have pre: "applyEdits (normalizeLineEndings ''a\<newline>b'') [\<lparr>oldText = ''a'', newText = ''x''\<rparr>]
      = Inr ''x\<newline>b''"
    by (simp add: applyEdit_def replace_def)
  have stored: "files (exampleState ''a\<newline>b'') ''/a/allowed/f.txt'' = Some ''a\<newline>b''"
    by (simp add: exampleState_def)
  from C6_failed_edit_writes_nothing [of "exampleState ''a\<newline>b''" "''/a/allowed/f.txt''"
      "''a\<newline>b''" "[\<lparr>oldText = ''a'', newText = ''x''\<rparr>]" "''x\<newline>b''"
      "\<lparr>oldText = ''zzz'', newText = ''y''\<rparr>" exampleEnv "[]" False
      "[\<lparr>oldText = ''a'', newText = ''x''\<rparr>, \<lparr>oldText = ''zzz'', newText = ''y''\<rparr>]"
      "NoMatchFound ''zzz''"] noWindow pre stored
  show ?thesis
    by simp
qed


subsection \<open>Undo on files as bytes\<close>

lemma normalizeLineEndings16_id:
  "\<not> includes16 s [0x0D, 0x0A] \<Longrightarrow> normalizeLineEndings16 s = s"
  by (induction s rule: normalizeLineEndings16.induct) auto

text \<open>
  A carriage return and a line feed next to each other in a string are next to each other
  in its encoding.
\<close>

lemma utf8Bytes_ascii: "utf8Bytes 0x0D = [0x0D]" "utf8Bytes 0x0A = [0x0A]"
  by (simp_all add: utf8Bytes_def)

lemma codePoints_line_feed: "\<exists>cps. codePoints (0x0A # rest) = 0x0A # cps"
  by (cases rest) (simp_all add: isSurrogate_def)

lemma utf8Encode_crlf:
  "includes16 s [0x0D, 0x0A] \<Longrightarrow> sublist [0x0D, 0x0A] (utf8Encode s)"
proof (induction s rule: codePoints.induct)
  case 1
  then show ?case by simp
next
  case (2 u)
  then show ?case by simp
next
  case (3 u v rest)
  show ?case
  proof (cases "u = 0x0D \<and> v = 0x0A")
    case True
    obtain cps where "codePoints (0x0A # rest) = 0x0A # cps"
      using codePoints_line_feed by blast
    with True have "utf8Encode (u # v # rest) = [0x0D, 0x0A] @ concat (map utf8Bytes cps)"
      by (simp add: utf8Encode_def isSurrogate_def utf8Bytes_ascii)
    then show ?thesis
      by (metis sublist_appendI append_Nil)
  next
    case False
    with "3.prems" have tail: "includes16 (v # rest) [0x0D, 0x0A]"
      by auto
    show ?thesis
    proof (cases "0xD800 \<le> unat u \<and> unat u \<le> 0xDBFF \<and> 0xDC00 \<le> unat v \<and> unat v \<le> 0xDFFF")
      case True
      then have "v \<noteq> 0x0D"
        by auto
      with tail have "includes16 rest [0x0D, 0x0A]"
        by auto
      with True "3.IH"(1) have "sublist [0x0D, 0x0A] (utf8Encode rest)"
        by simp
      moreover from True have "codePoints (u # v # rest)
          = (0x10000 + (unat u - 0xD800) * 0x400 + (unat v - 0xDC00)) # codePoints rest"
        unfolding codePoints.simps by (rule if_P)
      then have "utf8Encode (u # v # rest)
          = utf8Bytes (0x10000 + (unat u - 0xD800) * 0x400 + (unat v - 0xDC00)) @ utf8Encode rest"
        by (simp only: utf8Encode_def list.map concat.simps)
      ultimately show ?thesis
        by (simp add: sublist_append)
    next
      case False
      with tail "3.IH"(2) have "sublist [0x0D, 0x0A] (utf8Encode (v # rest))"
        by simp
      moreover from False have "codePoints (u # v # rest)
          = (if isSurrogate u then 0xFFFD else unat u) # codePoints (v # rest)"
        unfolding codePoints.simps by (rule if_not_P)
      then have "utf8Encode (u # v # rest)
          = utf8Bytes (if isSurrogate u then 0xFFFD else unat u) @ utf8Encode (v # rest)"
        by (simp only: utf8Encode_def list.map concat.simps)
      ultimately show ?thesis
        by (simp add: sublist_append)
    qed
  qed
qed

lemma saveToHistory16_last:
  "\<exists>h. editHistory16 (saveToHistory16 s filePath content) filePath = Some (h @ [content])"
proof -
  define pushed where
    "pushed = (case editHistory16 s filePath of None \<Rightarrow> [] | Some h \<Rightarrow> h) @ [content]"
  have "tl pushed = butlast (tl pushed) @ [content]" if "length pushed > MAX_HISTORY_SIZE"
  proof -
    from that have "tl pushed \<noteq> []"
      by (cases pushed) (auto simp: MAX_HISTORY_SIZE_def pushed_def)
    moreover from this have "last (tl pushed) = content"
      by (simp add: pushed_def last_tl)
    ultimately show ?thesis
      by (metis append_butlast_last_id)
  qed
  then show ?thesis
    by (auto simp: saveToHistory16_def Let_def pushed_def)
qed

lemma saveToHistory16_disk: "disk (saveToHistory16 s filePath content) = disk s"
  by (simp add: saveToHistory16_def Let_def)

text \<open>
  A file of ASCII bytes is UTF-8: decoding and encoding it gives the same bytes.
\<close>

lemma codePoints_Cons:
  "\<not> isSurrogate u \<Longrightarrow> codePoints (u # s) = unat u # codePoints s"
  by (cases s) (auto simp: isSurrogate_def)

lemma decodeUtf8_ascii:
  "\<forall>b\<in>set bytes. unat b \<le> 0x7F \<Longrightarrow> decodeUtf8 0 0 0x80 0xBF bytes = map unat bytes"
  by (induction bytes) auto

lemma ascii_unit:
  assumes "unat (b :: byte) \<le> 0x7F"
  shows "toCodeUnits (unat b) = [ucast b]"
    and "\<not> isSurrogate (ucast b)"
    and "unat (ucast b :: codeUnit) = unat b"
    and "utf8Bytes (unat b) = [b]"
proof -
  from assms have "unat b < 2 ^ 16"
    by simp
  then show u: "unat (ucast b :: codeUnit) = unat b"
    by (simp add: unsigned_ucast_eq take_bit_nat_eq_self)
  from assms show "toCodeUnits (unat b) = [ucast b]"
    by (simp add: toCodeUnits_def)
  from assms u show "\<not> isSurrogate (ucast b)"
    by (simp add: isSurrogate_def)
  from assms show "utf8Bytes (unat b) = [b]"
    by (simp add: utf8Bytes_def)
qed

lemma ascii_lossless:
  "\<forall>b\<in>set bytes. unat b \<le> 0x7F \<Longrightarrow> utf8Encode (utf8Decode bytes) = bytes"
proof (induction bytes)
  case Nil
  then show ?case
    by (simp add: utf8Encode_def utf8Decode_def)
next
  case (Cons b bytes)
  then have b: "unat b \<le> 0x7F" and rest: "\<forall>b\<in>set bytes. unat b \<le> 0x7F"
    by simp_all
  from Cons.prems have "utf8Decode (b # bytes) = ucast b # utf8Decode bytes"
    by (simp add: utf8Decode_def decodeUtf8_ascii ascii_unit(1) [OF b])
  with Cons.IH [OF rest] show ?case
    by (simp add: utf8Encode_def codePoints_Cons ascii_unit [OF b])
qed

text \<open>
  Claim C7, as stated: for every file with \<open>\n\<close> line endings only, a successful edit
  that is not a dry run and then \<open>undo_edit\<close> leave the file with the bytes it had. The
  file with the bytes \<open>61 E9 0A 62\<close> has no carriage return; replacing \<open>b\<close> by \<open>c\<close>
  succeeds, and after \<open>undo_edit\<close> the bytes are \<open>61 EF BF BD 0A 62\<close>: the byte
  \<open>E9\<close> was read as U+FFFD, and the snapshot written back is the string that was read.
\<close>

theorem C7_counterexample:
  "disk (exampleDisk [0x61, 0xE9, 0x0A, 0x62]) ''/a/allowed/f.txt''
     = Some [0x61, 0xE9, 0x0A, 0x62]
   \<and> \<not> sublist [0x0D, 0x0A] [0x61, 0xE9, 0x0A, 0x62 :: byte]
   \<and> 0x0D \<notin> set [0x61, 0xE9, 0x0A, 0x62 :: byte]
   \<and> \<not> isl (fst (applyFileEdits16 examplePatch16 (exampleDisk [0x61, 0xE9, 0x0A, 0x62])
          ''/a/allowed/f.txt'' [\<lparr>oldText16 = [0x62], newText16 = [0x63]\<rparr>] False))
   \<and> disk (snd (applyFileEdits16 examplePatch16 (exampleDisk [0x61, 0xE9, 0x0A, 0x62])
          ''/a/allowed/f.txt'' [\<lparr>oldText16 = [0x62], newText16 = [0x63]\<rparr>] False))
        ''/a/allowed/f.txt''
       = Some [0x61, 0xEF, 0xBF, 0xBD, 0x0A, 0x63]
   \<and> \<not> isl (fst (undo_edit16 examplePatch16
          (snd (applyFileEdits16 examplePatch16 (exampleDisk [0x61, 0xE9, 0x0A, 0x62])
             ''/a/allowed/f.txt'' [\<lparr>oldText16 = [0x62], newText16 = [0x63]\<rparr>] False))
          ''/a/allowed/f.txt'' ''f.txt''))
   \<and> disk (snd (undo_edit16 examplePatch16
          (snd (applyFileEdits16 examplePatch16 (exampleDisk [0x61, 0xE9, 0x0A, 0x62])
             ''/a/allowed/f.txt'' [\<lparr>oldText16 = [0x62], newText16 = [0x63]\<rparr>] False))
          ''/a/allowed/f.txt'' ''f.txt'')) ''/a/allowed/f.txt''
       = Some [0x61, 0xEF, 0xBF, 0xBD, 0x0A, 0x62]
   \<and> [0x61, 0xEF, 0xBF, 0xBD, 0x0A, 0x62] \<noteq> [0x61, 0xE9, 0x0A, 0x62 :: byte]"
proof -
  have decoded: "utf8Decode [0x61, 0xE9, 0x0A, 0x62] = [0x61, 0xFFFD, 0x0A, 0x62]"
    by (simp add: utf8Decode_def toCodeUnits_def)
  have encoded: "utf8Encode [0x61, 0xFFFD, 0x0A, 0x63] = [0x61, 0xEF, 0xBF, 0xBD, 0x0A, 0x63]"
    "utf8Encode [0x61, 0xFFFD, 0x0A, 0x62] = [0x61, 0xEF, 0xBF, 0xBD, 0x0A, 0x62]"
    by (simp_all add: utf8Encode_def utf8Bytes_def isSurrogate_def)
  have edited: "applyEdits16 [0x61, 0xFFFD, 0x0A, 0x62] [\<lparr>oldText16 = [0x62], newText16 = [0x63]\<rparr>]
      = Inr [0x61, 0xFFFD, 0x0A, 0x63]"
    by (simp add: applyEdit16_def replace16_def)
  have after: "snd (applyFileEdits16 examplePatch16 (exampleDisk [0x61, 0xE9, 0x0A, 0x62])
        ''/a/allowed/f.txt'' [\<lparr>oldText16 = [0x62], newText16 = [0x63]\<rparr>] False)
      = \<lparr>disk = [''/a/allowed/f.txt'' \<mapsto> [0x61, 0xEF, 0xBF, 0xBD, 0x0A, 0x63]],
         editHistory16 = [''/a/allowed/f.txt'' \<mapsto> [[0x61, 0xFFFD, 0x0A, 0x62]]]\<rparr>"
    by (simp add: applyFileEdits16_def readFile16_def writeFile16_def saveToHistory16_def
        exampleDisk_def decoded applyEdit16_def replace16_def encoded MAX_HISTORY_SIZE_def
        Let_def)
  have ok: "\<not> isl (fst (applyFileEdits16 examplePatch16 (exampleDisk [0x61, 0xE9, 0x0A, 0x62])
        ''/a/allowed/f.txt'' [\<lparr>oldText16 = [0x62], newText16 = [0x63]\<rparr>] False))"
    by (simp add: applyFileEdits16_def readFile16_def exampleDisk_def decoded applyEdit16_def
        replace16_def Let_def)
  have undone: "\<not> isl (fst (undo_edit16 examplePatch16
        \<lparr>disk = [''/a/allowed/f.txt'' \<mapsto> [0x61, 0xEF, 0xBF, 0xBD, 0x0A, 0x63]],
         editHistory16 = [''/a/allowed/f.txt'' \<mapsto> [[0x61, 0xFFFD, 0x0A, 0x62]]]\<rparr>
        ''/a/allowed/f.txt'' ''f.txt''))"
    "disk (snd (undo_edit16 examplePatch16
        \<lparr>disk = [''/a/allowed/f.txt'' \<mapsto> [0x61, 0xEF, 0xBF, 0xBD, 0x0A, 0x63]],
         editHistory16 = [''/a/allowed/f.txt'' \<mapsto> [[0x61, 0xFFFD, 0x0A, 0x62]]]\<rparr>
        ''/a/allowed/f.txt'' ''f.txt'')) ''/a/allowed/f.txt''
      = Some [0x61, 0xEF, 0xBF, 0xBD, 0x0A, 0x62]"
    by (simp_all add: undo_edit16_def readFile16_def writeFile16_def encoded Let_def)
  have stored: "disk (exampleDisk [0x61, 0xE9, 0x0A, 0x62]) ''/a/allowed/f.txt''
      = Some [0x61, 0xE9, 0x0A, 0x62]"
    by (simp add: exampleDisk_def)
  have lf: "\<not> sublist [0x0D, 0x0A] [0x61, 0xE9, 0x0A, 0x62 :: byte]"
    "0x0D \<notin> set [0x61, 0xE9, 0x0A, 0x62 :: byte]"
    "[0x61, 0xEF, 0xBF, 0xBD, 0x0A, 0x62] \<noteq> [0x61, 0xE9, 0x0A, 0x62 :: byte]"
    by (simp_all add: sublist_code)
  from stored lf ok undone show ?thesis
    unfolding after by simp
qed

text \<open>
  Claim C7, amended: for every file whose bytes are UTF-8, so that decoding and encoding
  them gives the same bytes, and have no carriage return before a line feed, a call of
  \<open>applyFileEdits\<close> that succeeds with \<open>dryRun\<close> false writes the encoding of the edited
  string, and \<open>undo_edit\<close> on the same path then succeeds and leaves every file, the
  edited one included, with the bytes from before the edit.
\<close>

theorem C7_undo_roundtrip:
  assumes "disk s filePath = Some bytes"
    and "utf8Encode (utf8Decode bytes) = bytes"
    and "\<not> sublist [0x0D, 0x0A] bytes"
    and "fst (applyFileEdits16 createTwoFilesPatch16 s filePath edits False) = Inr diff"
  shows "\<exists>modifiedContent reverted.
           applyEdits16 (utf8Decode bytes) edits = Inr modifiedContent
           \<and> disk (snd (applyFileEdits16 createTwoFilesPatch16 s filePath edits False))
               = (disk s)(filePath \<mapsto> utf8Encode modifiedContent)
           \<and> fst (undo_edit16 createTwoFilesPatch16
                 (snd (applyFileEdits16 createTwoFilesPatch16 s filePath edits False))
                 filePath requested)
               = Inr reverted
           \<and> disk (snd (undo_edit16 createTwoFilesPatch16
                 (snd (applyFileEdits16 createTwoFilesPatch16 s filePath edits False))
                 filePath requested))
               = disk s"
proof -
  define raw where "raw = utf8Decode bytes"
  from assms(1) have read: "readFile16 s filePath = Some raw"
    by (simp add: readFile16_def raw_def)
  have "\<not> includes16 raw [0x0D, 0x0A]"
  proof
    assume "includes16 raw [0x0D, 0x0A]"
    then have "sublist [0x0D, 0x0A] (utf8Encode raw)"
      by (rule utf8Encode_crlf)
    with assms(2,3) show False
      by (simp add: raw_def)
  qed
  then have norm: "normalizeLineEndings16 raw = raw"
    by (rule normalizeLineEndings16_id)
  from read assms(4) norm obtain m where m: "applyEdits16 raw edits = Inr m"
    by (auto simp: applyFileEdits16_def Let_def split: sum.splits)
  define s1 where "s1 = saveToHistory16 s filePath raw"
  define s2 where "s2 = writeFile16 s1 filePath m"
  from read norm m
  have after: "snd (applyFileEdits16 createTwoFilesPatch16 s filePath edits False) = s2"
    by (simp add: applyFileEdits16_def Let_def s1_def s2_def)
  obtain h where h: "editHistory16 s1 filePath = Some (h @ [raw])"
    unfolding s1_def using saveToHistory16_last by blast
  have disk2: "disk s2 = (disk s)(filePath \<mapsto> utf8Encode m)"
    by (simp add: s2_def s1_def writeFile16_def saveToHistory16_disk)
  have hist2: "editHistory16 s2 filePath = Some (h @ [raw])"
    using h by (simp add: s2_def writeFile16_def)
  from disk2 hist2 have undone:
    "\<exists>reverted. fst (undo_edit16 createTwoFilesPatch16 s2 filePath requested) = Inr reverted"
    by (simp add: undo_edit16_def readFile16_def Let_def writeFile16_def)
  from disk2 hist2 have "disk (snd (undo_edit16 createTwoFilesPatch16 s2 filePath requested))
      = (disk s)(filePath \<mapsto> utf8Encode raw)"
    by (simp add: undo_edit16_def readFile16_def Let_def writeFile16_def)
  with assms(1,2) have restored:
    "disk (snd (undo_edit16 createTwoFilesPatch16 s2 filePath requested)) = disk s"
    by (simp add: raw_def map_upd_triv)
  from m disk2 undone restored show ?thesis
    unfolding after raw_def by blast
qed

text \<open>
  The amended claim C7 at the file with the bytes \<open>61 C3 A9 0A 62\<close>, edited to
  \<open>61 C3 A9 0A 63\<close> and restored.
\<close>

theorem C7_undo_roundtrip_witness:
  "disk (exampleDisk [0x61, 0xC3, 0xA9, 0x0A, 0x62]) ''/a/allowed/f.txt''
     = Some [0x61, 0xC3, 0xA9, 0x0A, 0x62]
   \<and> utf8Decode [0x61, 0xC3, 0xA9, 0x0A, 0x62] = [0x61, 0xE9, 0x0A, 0x62]
   \<and> utf8Encode (utf8Decode [0x61, 0xC3, 0xA9, 0x0A, 0x62]) = [0x61, 0xC3, 0xA9, 0x0A, 0x62]
   \<and> \<not> sublist [0x0D, 0x0A] [0x61, 0xC3, 0xA9, 0x0A, 0x62 :: byte]
   \<and> disk (snd (applyFileEdits16 examplePatch16 (exampleDisk [0x61, 0xC3, 0xA9, 0x0A, 0x62])
          ''/a/allowed/f.txt'' [\<lparr>oldText16 = [0x62], newText16 = [0x63]\<rparr>] False))
        ''/a/allowed/f.txt''
       = Some [0x61, 0xC3, 0xA9, 0x0A, 0x63]
   \<and> disk (snd (undo_edit16 examplePatch16
          (snd (applyFileEdits16 examplePatch16 (exampleDisk [0x61, 0xC3, 0xA9, 0x0A, 0x62])
             ''/a/allowed/f.txt'' [\<lparr>oldText16 = [0x62], newText16 = [0x63]\<rparr>] False))
          ''/a/allowed/f.txt'' ''f.txt''))
       = disk (exampleDisk [0x61, 0xC3, 0xA9, 0x0A, 0x62])"
proof -
  have stored: "disk (exampleDisk [0x61, 0xC3, 0xA9, 0x0A, 0x62]) ''/a/allowed/f.txt''
      = Some [0x61, 0xC3, 0xA9, 0x0A, 0x62]"
    by (simp add: exampleDisk_def)
  have decoded: "utf8Decode [0x61, 0xC3, 0xA9, 0x0A, 0x62] = [0x61, 0xE9, 0x0A, 0x62]"
    by (simp add: utf8Decode_def toCodeUnits_def)
  have lossless: "utf8Encode (utf8Decode [0x61, 0xC3, 0xA9, 0x0A, 0x62])
      = [0x61, 0xC3, 0xA9, 0x0A, 0x62]"
    unfolding decoded by (simp add: utf8Encode_def utf8Bytes_def isSurrogate_def)
  have lf: "\<not> sublist [0x0D, 0x0A] [0x61, 0xC3, 0xA9, 0x0A, 0x62 :: byte]"
    by (simp add: sublist_code)
  have edited: "applyEdits16 [0x61, 0xE9, 0x0A, 0x62] [\<lparr>oldText16 = [0x62], newText16 = [0x63]\<rparr>]
      = Inr [0x61, 0xE9, 0x0A, 0x63]"
    by (simp add: applyEdit16_def replace16_def)
  have encoded: "utf8Encode [0x61, 0xE9, 0x0A, 0x63] = [0x61, 0xC3, 0xA9, 0x0A, 0x63]"
    by (simp add: utf8Encode_def utf8Bytes_def isSurrogate_def)
  from stored decoded have ok: "fst (applyFileEdits16 examplePatch16
      (exampleDisk [0x61, 0xC3, 0xA9, 0x0A, 0x62]) ''/a/allowed/f.txt''
      [\<lparr>oldText16 = [0x62], newText16 = [0x63]\<rparr>] False)
      = Inr (formatDiff16 (createUnifiedDiff16 examplePatch16 [0x61, 0xE9, 0x0A, 0x62]
          [0x61, 0xE9, 0x0A, 0x63] ''/a/allowed/f.txt'') [0x0A, 0x0A])"
    by (simp add: applyFileEdits16_def readFile16_def applyEdit16_def replace16_def Let_def)
  from C7_undo_roundtrip [OF stored lossless lf ok, of "''f.txt''"]
    stored decoded lossless lf edited encoded
  show ?thesis
    by auto
qed

subsection \<open>Line endings\<close>

text \<open>
  Claim C9 says that every mutating operation normalizes \<open>\r\n\<close> to \<open>\n\<close> in the buffer
  before it compares or changes it. \<open>applyFileEdits\<close> does: on the file \<open>"a\r\nb"\<close> it
  saves \<open>"a\nb"\<close> to the history and writes \<open>"a\nc"\<close>. \<open>insertAtLine\<close> does not: on
  the same file it saves \<open>"a\r\nb"\<close> and writes \<open>"a\r\nX\nb"\<close>, a file with both
  line endings.
\<close>

theorem C9_insert_does_not_normalize:
  "files (snd (insertAtLine exampleEnv (exampleState (''a'' @ [CHR 0x0D, CHR 0x0A] @ ''b''))
       ''/a/allowed/f.txt'' 1 ''X'')) ''/a/allowed/f.txt''
     = Some (''a'' @ [CHR 0x0D, CHR 0x0A] @ ''X'' @ [CHR 0x0A] @ ''b'')
   \<and> editHistory (snd (insertAtLine exampleEnv
       (exampleState (''a'' @ [CHR 0x0D, CHR 0x0A] @ ''b'')) ''/a/allowed/f.txt'' 1 ''X''))
       ''/a/allowed/f.txt''
     = Some [''a'' @ [CHR 0x0D, CHR 0x0A] @ ''b'']
   \<and> files (snd (applyFileEdits exampleEnv (exampleState (''a'' @ [CHR 0x0D, CHR 0x0A] @ ''b''))
       ''/a/allowed/f.txt'' [\<lparr>oldText = ''b'', newText = ''c''\<rparr>] False)) ''/a/allowed/f.txt''
     = Some (''a'' @ [CHR 0x0A] @ ''c'')
   \<and> editHistory (snd (applyFileEdits exampleEnv
       (exampleState (''a'' @ [CHR 0x0D, CHR 0x0A] @ ''b'')) ''/a/allowed/f.txt''
       [\<lparr>oldText = ''b'', newText = ''c''\<rparr>] False)) ''/a/allowed/f.txt''
     = Some [''a'' @ [CHR 0x0A] @ ''b'']"
  by (simp add: insertAtLine_def applyFileEdits_def applyEdit_def replace_def saveToHistory_def
      writeFile_def exampleState_def splice_def MAX_HISTORY_SIZE_def Let_def)

section \<open>The history\<close>

lemma saveToHistory_bounded:
  "historyBounded s \<Longrightarrow> historyBounded (saveToHistory s filePath content)"
  by (auto simp: historyBounded_def saveToHistory_def Let_def MAX_HISTORY_SIZE_def
      split: option.splits)

lemma writeFile_bounded: "historyBounded (writeFile s filePath content) = historyBounded s"
  by (simp add: historyBounded_def writeFile_def)

lemma mutate_bounded: "historyBounded s \<Longrightarrow> historyBounded (snd (mutate e s filePath m))"
  by (cases m)
    (auto simp: mutate_def applyFileEdits_def insertAtLine_def Let_def writeFile_bounded
      saveToHistory_bounded split: option.splits sum.splits)

lemma undo_edit_bounded:
  "historyBounded s \<Longrightarrow> historyBounded (snd (undo_edit e s validPath requested))"
proof -
  assume bounded: "historyBounded s"
  have "length (butlast h) \<le> MAX_HISTORY_SIZE" if "editHistory s validPath = Some h" for h
  proof -
    from bounded that have "length h \<le> MAX_HISTORY_SIZE"
      by (simp add: historyBounded_def)
    then show ?thesis
      by simp
  qed
  with bounded show ?thesis
    by (auto simp: undo_edit_def Let_def historyBounded_def writeFile_def
        split: option.splits if_splits)
qed

lemma saveToHistory_full:
  "editHistory s filePath = Some h \<Longrightarrow> length h = MAX_HISTORY_SIZE \<Longrightarrow>
     editHistory (saveToHistory s filePath content) filePath = Some (tl h @ [content])"
  by (cases h) (auto simp: saveToHistory_def Let_def MAX_HISTORY_SIZE_def)

lemma saveToHistory_room:
  "editHistory s filePath = Some h \<Longrightarrow> length h < MAX_HISTORY_SIZE \<Longrightarrow>
     editHistory (saveToHistory s filePath content) filePath = Some (h @ [content])"
  by (auto simp: saveToHistory_def Let_def)

lemma saveToHistory_stack:
  assumes "length (historyOf s filePath) \<le> MAX_HISTORY_SIZE"
  shows "editHistory (saveToHistory s filePath content) filePath
           = Some (drop (length (historyOf s filePath @ [content]) - MAX_HISTORY_SIZE)
                (historyOf s filePath @ [content]))"
proof (cases "length (historyOf s filePath) = MAX_HISTORY_SIZE")
  case True
  then show ?thesis
    by (cases "historyOf s filePath")
      (auto simp: saveToHistory_def Let_def historyOf_def MAX_HISTORY_SIZE_def)
next
  case False
  with assms show ?thesis
    by (simp add: saveToHistory_def Let_def historyOf_def)
qed

lemma mutate_history:
  assumes "files s filePath \<noteq> None"
  shows "editHistory (snd (mutate e s filePath m))
           = editHistory (saveToHistory s filePath (snapshotOf s filePath m))"
    and "files (snd (mutate e s filePath m)) filePath \<noteq> None"
  using assms
  by (cases m; auto simp: mutate_def applyFileEdits_def insertAtLine_def snapshotOf_def Let_def
      writeFile_def saveToHistory_def split: option.splits sum.splits)+

lemma drop_drop_append:
  "drop (length (drop (length xs - n) xs @ ys) - n) (drop (length xs - n) xs @ ys)
     = drop (length (xs @ ys) - n) (xs @ ys)"
  by (cases "length xs \<le> n") (auto simp: add.commute)

lemma runMutations_files:
  "files s filePath \<noteq> None \<Longrightarrow> files (runMutations e s filePath ms) filePath \<noteq> None"
proof (induction ms arbitrary: s)
  case Nil
  then show ?case by simp
next
  case (Cons m ms)
  from Cons.prems have "files (snd (mutate e s filePath m)) filePath \<noteq> None"
    by (rule mutate_history(2))
  then show ?case
    by (simp add: Cons.IH)
qed

lemma runMutations_history:
  assumes "files s filePath \<noteq> None" and "length (historyOf s filePath) \<le> MAX_HISTORY_SIZE"
    and "ms \<noteq> []"
  shows "editHistory (runMutations e s filePath ms) filePath
           = Some (drop (length (historyOf s filePath @ snapshots e s filePath ms) - MAX_HISTORY_SIZE)
                (historyOf s filePath @ snapshots e s filePath ms))"
  using assms
proof (induction ms arbitrary: s)
  case Nil
  then show ?case by simp
next
  case (Cons m ms)
  define s' where "s' = snd (mutate e s filePath m)"
  define c where "c = snapshotOf s filePath m"
  from Cons.prems(1) have hist: "editHistory s' filePath
      = Some (drop (length (historyOf s filePath @ [c]) - MAX_HISTORY_SIZE) (historyOf s filePath @ [c]))"
    unfolding s'_def c_def
    by (simp add: mutate_history(1) saveToHistory_stack [OF Cons.prems(2)])
  then have stack': "historyOf s' filePath
      = drop (length (historyOf s filePath @ [c]) - MAX_HISTORY_SIZE) (historyOf s filePath @ [c])"
    by (simp add: historyOf_def)
  show ?case
  proof (cases "ms = []")
    case True
    with hist show ?thesis
      by (simp add: s'_def c_def)
  next
    case False
    from Cons.prems(1) have exists': "files s' filePath \<noteq> None"
      unfolding s'_def by (rule mutate_history(2))
    from Cons.prems(2) have bounded': "length (historyOf s' filePath) \<le> MAX_HISTORY_SIZE"
      unfolding stack' by auto
    from Cons.IH [OF exists' bounded' False]
    have "editHistory (runMutations e s' filePath ms) filePath
        = Some (drop (length (historyOf s' filePath @ snapshots e s' filePath ms) - MAX_HISTORY_SIZE)
             (historyOf s' filePath @ snapshots e s' filePath ms))" .
    also have "drop (length (historyOf s' filePath @ snapshots e s' filePath ms) - MAX_HISTORY_SIZE)
             (historyOf s' filePath @ snapshots e s' filePath ms)
        = drop (length ((historyOf s filePath @ [c]) @ snapshots e s' filePath ms) - MAX_HISTORY_SIZE)
            ((historyOf s filePath @ [c]) @ snapshots e s' filePath ms)"
      unfolding stack' by (rule drop_drop_append)
    finally show ?thesis
      by (simp add: s'_def c_def)
  qed
qed

lemma length_snapshots: "length (snapshots e s filePath ms) = length ms"
  by (induction ms arbitrary: s) auto

lemma undo_edit_step:
  assumes "editHistory s validPath = Some h" and "h \<noteq> []" and "files s validPath \<noteq> None"
  shows "\<exists>d. fst (undo_edit e s validPath requested) = Inr d"
    and "files (snd (undo_edit e s validPath requested)) validPath = Some (last h)"
    and "editHistory (snd (undo_edit e s validPath requested)) validPath = Some (butlast h)"
  using assms by (auto simp: undo_edit_def Let_def writeFile_def)

lemma undo_edit_empty:
  assumes "editHistory s validPath = Some []"
  shows "fst (undo_edit e s validPath requested) = Inl (NoHistory requested)"
  using assms by (simp add: undo_edit_def)

lemma undoTimes_state:
  assumes "editHistory s validPath = Some h" and "files s validPath \<noteq> None"
    and "k \<le> length h"
  shows "editHistory (undoTimes e s validPath requested k) validPath
           = Some (take (length h - k) h)
         \<and> files (undoTimes e s validPath requested k) validPath \<noteq> None"
  using assms(3)
proof (induction k)
  case 0
  with assms show ?case by simp
next
  case (Suc k)
  define sk where "sk = undoTimes e s validPath requested k"
  from Suc have hk: "editHistory sk validPath = Some (take (length h - k) h)"
    and fk: "files sk validPath \<noteq> None"
    by (simp_all add: sk_def)
  from Suc.prems have ne: "take (length h - k) h \<noteq> []"
    by auto
  from undo_edit_step(2,3) [OF hk ne fk, of e requested] Suc.prems show ?case
    by (simp add: sk_def butlast_take)
qed

text \<open>
  Claim C8: no operation makes a stack of the history longer than ten snapshots;
  \<open>saveToHistory\<close> appends the snapshot, and drops the oldest one when the stack held ten.
  After eleven mutating operations on a file that had no history, the stack holds the
  snapshots of the last ten operations; ten requests \<open>undo_edit\<close> succeed and write them
  back, the latest first, and the eleventh fails with \<open>NoHistory\<close>.
\<close>

theorem C8_history_bound:
  "(historyBounded s \<longrightarrow>
      historyBounded (saveToHistory s filePath content)
      \<and> historyBounded (snd (mutate e s filePath m))
      \<and> historyBounded (snd (undo_edit e s filePath requested)))
   \<and> (editHistory s filePath = Some h \<and> length h < MAX_HISTORY_SIZE \<longrightarrow>
        editHistory (saveToHistory s filePath content) filePath = Some (h @ [content]))
   \<and> (editHistory s filePath = Some h \<and> length h = MAX_HISTORY_SIZE \<longrightarrow>
        editHistory (saveToHistory s filePath content) filePath = Some (tl h @ [content]))
   \<and> (files s filePath \<noteq> None \<and> editHistory s filePath = None \<and> length ms = 11 \<longrightarrow>
        editHistory (runMutations e s filePath ms) filePath
          = Some (tl (snapshots e s filePath ms))
        \<and> length (tl (snapshots e s filePath ms)) = 10
        \<and> (\<forall>k<10.
              (\<exists>d. fst (undo_edit e (undoTimes e (runMutations e s filePath ms) filePath requested k)
                     filePath requested) = Inr d)
              \<and> files (snd (undo_edit e
                    (undoTimes e (runMutations e s filePath ms) filePath requested k)
                    filePath requested)) filePath
                  = Some (snapshots e s filePath ms ! (10 - k)))
        \<and> fst (undo_edit e (undoTimes e (runMutations e s filePath ms) filePath requested 10)
             filePath requested)
            = Inl (NoHistory requested))"
proof (intro conjI impI)
  assume "historyBounded s"
  then show "historyBounded (saveToHistory s filePath content)"
    and "historyBounded (snd (mutate e s filePath m))"
    and "historyBounded (snd (undo_edit e s filePath requested))"
    by (rule saveToHistory_bounded mutate_bounded undo_edit_bounded)+
next
  assume "editHistory s filePath = Some h \<and> length h < MAX_HISTORY_SIZE"
  then show "editHistory (saveToHistory s filePath content) filePath = Some (h @ [content])"
    by (simp add: saveToHistory_room)
next
  assume "editHistory s filePath = Some h \<and> length h = MAX_HISTORY_SIZE"
  then show "editHistory (saveToHistory s filePath content) filePath = Some (tl h @ [content])"
    by (simp add: saveToHistory_full)
next
  assume run: "files s filePath \<noteq> None \<and> editHistory s filePath = None \<and> length ms = 11"
  define s11 where "s11 = runMutations e s filePath ms"
  define snaps where "snaps = snapshots e s filePath ms"
  from run have len: "length snaps = 11"
    by (simp add: snaps_def length_snapshots)
  from run have exists: "files s filePath \<noteq> None" and nonempty: "ms \<noteq> []"
    and empty: "historyOf s filePath = []"
    by (auto simp: historyOf_def)
  from runMutations_history [OF exists _ nonempty, of e] empty len
  have hist: "editHistory s11 filePath = Some (tl snaps)"
    by (simp add: s11_def snaps_def MAX_HISTORY_SIZE_def drop_Suc)
  from exists have exists11: "files s11 filePath \<noteq> None"
    unfolding s11_def by (rule runMutations_files)
  define h10 where "h10 = tl snaps"
  from len have len10: "length h10 = 10"
    by (simp add: h10_def)
  from hist have hist10: "editHistory s11 filePath = Some h10"
    by (simp add: h10_def)
  have undo: "(\<exists>d. fst (undo_edit e (undoTimes e s11 filePath requested k) filePath requested)
                  = Inr d)
      \<and> files (snd (undo_edit e (undoTimes e s11 filePath requested k) filePath requested))
            filePath
          = Some (snaps ! (10 - k))" if "k < 10" for k
  proof -
    from that len10 have k: "k \<le> length h10"
      by simp
    from undoTimes_state [OF hist10 exists11 k, of e requested] len10
    have hk: "editHistory (undoTimes e s11 filePath requested k) filePath
        = Some (take (10 - k) h10)"
      and fk: "files (undoTimes e s11 filePath requested k) filePath \<noteq> None"
      by simp_all
    from that len10 have ne: "take (10 - k) h10 \<noteq> []"
      by auto
    from that len10 have idx: "length (take (10 - k) h10) - 1 = 9 - k"
      by simp
    from ne have "last (take (10 - k) h10)
        = take (10 - k) h10 ! (length (take (10 - k) h10) - 1)"
      by (rule last_conv_nth)
    also from that have "\<dots> = h10 ! (9 - k)"
      unfolding idx by simp
    also from that len10 have "h10 ! (9 - k) = snaps ! Suc (9 - k)"
      unfolding h10_def by (intro nth_tl) simp
    also from that have "Suc (9 - k) = 10 - k"
      by simp
    finally have "last (take (10 - k) h10) = snaps ! (10 - k)" .
    with undo_edit_step(1,2) [OF hk ne fk, of e requested] show ?thesis
      by simp
  qed
  from undoTimes_state [OF hist10 exists11, of 10 e requested] len10
  have "editHistory (undoTimes e s11 filePath requested 10) filePath = Some []"
    by simp
  then have last: "fst (undo_edit e (undoTimes e s11 filePath requested 10) filePath requested)
      = Inl (NoHistory requested)"
    by (rule undo_edit_empty)
  from hist show "editHistory (runMutations e s filePath ms) filePath
      = Some (tl (snapshots e s filePath ms))"
    by (simp add: s11_def snaps_def)
  from len10 show "length (tl (snapshots e s filePath ms)) = 10"
    by (simp add: snaps_def h10_def)
  from undo show "\<forall>k<10.
      (\<exists>d. fst (undo_edit e (undoTimes e (runMutations e s filePath ms) filePath requested k)
             filePath requested) = Inr d)
      \<and> files (snd (undo_edit e
            (undoTimes e (runMutations e s filePath ms) filePath requested k)
            filePath requested)) filePath
          = Some (snapshots e s filePath ms ! (10 - k))"
    by (simp add: s11_def snaps_def)
  from last show "fst (undo_edit e
      (undoTimes e (runMutations e s filePath ms) filePath requested 10) filePath requested)
      = Inl (NoHistory requested)"
    by (simp add: s11_def)
qed

text \<open>The snapshots that the eleven example operations save, starting from \<open>"0"\<close>.\<close>

lemma elevenMutations_snapshots:
  "snapshots exampleEnv (exampleState ''0'') ''/a/allowed/f.txt'' elevenMutations
   = [''0'', ''1\<newline>0'', ''2\<newline>1\<newline>0'', ''3\<newline>2\<newline>1\<newline>0'', ''4\<newline>3\<newline>2\<newline>1\<newline>0'', ''5\<newline>4\<newline>3\<newline>2\<newline>1\<newline>0'',
  ''6\<newline>4\<newline>3\<newline>2\<newline>1\<newline>0'', ''7\<newline>4\<newline>3\<newline>2\<newline>1\<newline>0'', ''8\<newline>4\<newline>3\<newline>2\<newline>1\<newline>0'', ''9\<newline>4\<newline>3\<newline>2\<newline>1\<newline>0'',
  ''9\<newline>4\<newline>3\<newline>2\<newline>1\<newline>0\<newline>10'']"
  by (simp add: elevenMutations_def snapshotOf_def mutate_def insertAtLine_def applyFileEdits_def
      exampleState_def saveToHistory_def writeFile_def applyEdit_def replace_def splice_def Let_def)

text \<open>
  Claim C8 at a full stack, which loses its oldest snapshot, at the stack of nine
  snapshots that \<open>undo_edit\<close> leaves, which only grows, and at eleven operations on a file
  that holds \<open>"0"\<close>: the snapshot \<open>"0"\<close> of the first operation is no longer in the
  history.
\<close>

theorem C8_history_bound_witness:
  "historyBounded fullState
   \<and> historyBounded (saveToHistory fullState ''/a/allowed/f.txt'' ''k'')
   \<and> editHistory (saveToHistory fullState ''/a/allowed/f.txt'' ''k'') ''/a/allowed/f.txt''
       = Some [''b'', ''c'', ''d'', ''e'', ''f'', ''g'', ''h'', ''i'', ''j'', ''k'']
   \<and> editHistory (snd (undo_edit exampleEnv fullState ''/a/allowed/f.txt'' ''f.txt''))
         ''/a/allowed/f.txt''
       = Some [''a'', ''b'', ''c'', ''d'', ''e'', ''f'', ''g'', ''h'', ''i'']
   \<and> editHistory (saveToHistory
         (snd (undo_edit exampleEnv fullState ''/a/allowed/f.txt'' ''f.txt''))
         ''/a/allowed/f.txt'' ''k'') ''/a/allowed/f.txt''
       = Some [''a'', ''b'', ''c'', ''d'', ''e'', ''f'', ''g'', ''h'', ''i'', ''k'']
   \<and> files (exampleState ''0'') ''/a/allowed/f.txt'' \<noteq> None
   \<and> editHistory (exampleState ''0'') ''/a/allowed/f.txt'' = None
   \<and> length elevenMutations = 11
   \<and> editHistory (runMutations exampleEnv (exampleState ''0'') ''/a/allowed/f.txt''
        elevenMutations) ''/a/allowed/f.txt''
       = Some (tl (snapshots exampleEnv (exampleState ''0'') ''/a/allowed/f.txt'' elevenMutations))
   \<and> fst (undo_edit exampleEnv
        (undoTimes exampleEnv
           (runMutations exampleEnv (exampleState ''0'') ''/a/allowed/f.txt'' elevenMutations)
           ''/a/allowed/f.txt'' ''f.txt'' 10)
        ''/a/allowed/f.txt'' ''f.txt'')
       = Inl (NoHistory ''f.txt'')
   \<and> editHistory (runMutations exampleEnv (exampleState ''0'') ''/a/allowed/f.txt''
        elevenMutations) ''/a/allowed/f.txt''
       = Some [''1\<newline>0'', ''2\<newline>1\<newline>0'', ''3\<newline>2\<newline>1\<newline>0'',
           ''4\<newline>3\<newline>2\<newline>1\<newline>0'', ''5\<newline>4\<newline>3\<newline>2\<newline>1\<newline>0'',
           ''6\<newline>4\<newline>3\<newline>2\<newline>1\<newline>0'', ''7\<newline>4\<newline>3\<newline>2\<newline>1\<newline>0'',
           ''8\<newline>4\<newline>3\<newline>2\<newline>1\<newline>0'', ''9\<newline>4\<newline>3\<newline>2\<newline>1\<newline>0'',
           ''9\<newline>4\<newline>3\<newline>2\<newline>1\<newline>0\<newline>10'']"
proof -
  have bounded: "historyBounded fullState"
    by (simp add: historyBounded_def fullState_def MAX_HISTORY_SIZE_def)
  have full: "editHistory fullState ''/a/allowed/f.txt''
      = Some [''a'', ''b'', ''c'', ''d'', ''e'', ''f'', ''g'', ''h'', ''i'', ''j'']"
    "length [''a'', ''b'', ''c'', ''d'', ''e'', ''f'', ''g'', ''h'', ''i'', ''j'']
      = MAX_HISTORY_SIZE"
    by (simp_all add: fullState_def MAX_HISTORY_SIZE_def)
  have room: "editHistory (snd (undo_edit exampleEnv fullState ''/a/allowed/f.txt'' ''f.txt''))
        ''/a/allowed/f.txt''
      = Some [''a'', ''b'', ''c'', ''d'', ''e'', ''f'', ''g'', ''h'', ''i'']"
    "length [''a'', ''b'', ''c'', ''d'', ''e'', ''f'', ''g'', ''h'', ''i''] < MAX_HISTORY_SIZE"
    by (simp_all add: undo_edit_def writeFile_def fullState_def MAX_HISTORY_SIZE_def Let_def)
  have start: "files (exampleState ''0'') ''/a/allowed/f.txt'' \<noteq> None"
    "editHistory (exampleState ''0'') ''/a/allowed/f.txt'' = None"
    "length elevenMutations = 11"
    by (simp_all add: exampleState_def elevenMutations_def)
  from C8_history_bound [where s = fullState and filePath = "''/a/allowed/f.txt''"
      and content = "''k''" and e = exampleEnv and m = "InsertAt 0 ''k''"
      and requested = "''f.txt''"
      and h = "[''a'', ''b'', ''c'', ''d'', ''e'', ''f'', ''g'', ''h'', ''i'', ''j'']"
      and ms = "[]"] bounded full
  have atFull: "historyBounded (saveToHistory fullState ''/a/allowed/f.txt'' ''k'')"
    "editHistory (saveToHistory fullState ''/a/allowed/f.txt'' ''k'') ''/a/allowed/f.txt''
      = Some [''b'', ''c'', ''d'', ''e'', ''f'', ''g'', ''h'', ''i'', ''j'', ''k'']"
    by simp_all
  from C8_history_bound [where
      s = "snd (undo_edit exampleEnv fullState ''/a/allowed/f.txt'' ''f.txt'')"
      and filePath = "''/a/allowed/f.txt''"
      and content = "''k''" and e = exampleEnv and m = "InsertAt 0 ''k''"
      and requested = "''f.txt''"
      and h = "[''a'', ''b'', ''c'', ''d'', ''e'', ''f'', ''g'', ''h'', ''i'']"
      and ms = "[]"] room
  have atRoom: "editHistory (saveToHistory
         (snd (undo_edit exampleEnv fullState ''/a/allowed/f.txt'' ''f.txt''))
         ''/a/allowed/f.txt'' ''k'') ''/a/allowed/f.txt''
       = Some [''a'', ''b'', ''c'', ''d'', ''e'', ''f'', ''g'', ''h'', ''i'', ''k'']"
    by simp
  from C8_history_bound [where s = "exampleState ''0''" and filePath = "''/a/allowed/f.txt''"
      and e = exampleEnv and requested = "''f.txt''" and ms = elevenMutations] start
  have eleven: "editHistory (runMutations exampleEnv (exampleState ''0'') ''/a/allowed/f.txt''
        elevenMutations) ''/a/allowed/f.txt''
       = Some (tl (snapshots exampleEnv (exampleState ''0'') ''/a/allowed/f.txt'' elevenMutations))"
    "fst (undo_edit exampleEnv
        (undoTimes exampleEnv
           (runMutations exampleEnv (exampleState ''0'') ''/a/allowed/f.txt'' elevenMutations)
           ''/a/allowed/f.txt'' ''f.txt'' 10)
        ''/a/allowed/f.txt'' ''f.txt'')
       = Inl (NoHistory ''f.txt'')"
    by simp_all
  from bounded atFull room(1) atRoom start eleven elevenMutations_snapshots show ?thesis
    by simp
qed

section \<open>The path guard\<close>

lemma validatePath_unfold:
  "validatePath e dirs requestedPath =
     (if \<not> isAllowed dirs (normalizePath (absolutePath e requestedPath)) then Inl AccessDeniedPath
      else
        (case tryRealpath e dirs (absolutePath e requestedPath) of
           Inr realPath \<Rightarrow> Inr realPath
         | Inl err \<Rightarrow>
             (case tryParent e dirs (absolutePath e requestedPath)
                     (path_dirname (absolutePath e requestedPath)) of
                Inr p \<Rightarrow> Inr p
              | Inl err' \<Rightarrow> Inl (ParentNotFound (path_dirname (absolutePath e requestedPath))))))"
  unfolding validatePath_def absolutePath_def Let_def by simp

lemma segmentPrefix_prefix: "segmentPrefix root p \<Longrightarrow> startsWith p root"
  by (auto simp: segmentPrefix_def startsWith_def prefix_def)

lemma segmentAllowed_isAllowed: "segmentAllowed dirs p \<Longrightarrow> isAllowed dirs p"
  by (auto simp: segmentAllowed_def isAllowed_def list_ex_iff dest: segmentPrefix_prefix)

lemma validatePath_errors:
  "validatePath e dirs requestedPath = Inl err \<Longrightarrow>
     err = AccessDeniedPath \<or> (\<exists>parentDir. err = ParentNotFound parentDir)"
  by (auto simp: validatePath_unfold split: if_splits sum.splits)

lemmas path_defs =
  absolutePath_def expandHome_def path_isAbsolute_def path_resolve_def normalizeString_def
  normalizePath_def path_normalize_def path_dirname_def startsWith_def isAllowed_def
  tryRealpath_def tryParent_def allowedDirectories_def

text \<open>
  When the real path of a path is outside the allowed directories, the result depends on
  the parent directory alone: the path is returned when the real path of the parent
  directory is allowed.
\<close>

lemma symlink_target_outside_accepted:
  assumes "isAllowed dirs (normalizePath (absolutePath e p))"
    and "realpath e (absolutePath e p) = Some target"
    and "\<not> isAllowed dirs (normalizePath target)"
    and "realpath e (path_dirname (absolutePath e p)) = Some realParentPath"
    and "isAllowed dirs (normalizePath realParentPath)"
  shows "validatePath e dirs p = Inr (absolutePath e p)"
  using assms by (simp add: validatePath_unfold tryRealpath_def tryParent_def)

text \<open>
  Claim C1 says that a symbolic link inside an allowed root whose target is outside every
  allowed root makes \<open>validatePath\<close> fail with \<open>AccessDenied\<close>. With the allowed
  directory \<open>/a/allowed\<close> and the link \<open>/a/allowed/link\<close> to \<open>/etc/passwd\<close>, the
  \<open>Error\<close> thrown for the target is caught by the \<open>catch\<close> of the same \<open>try\<close>, the
  parent directory \<open>/a/allowed\<close> passes the check for new files, and the path of the
  link is returned. No call of \<open>validatePath\<close> ends with the error for a symbolic link or
  with the error for a parent directory outside the allowed directories.
\<close>

theorem C1_symlink_target_outside:
  "allowedDirectories exampleEnv [''/a/allowed''] = [''/a/allowed'']
   \<and> absolutePath exampleEnv ''/a/allowed/link'' = ''/a/allowed/link''
   \<and> realpath exampleEnv ''/a/allowed/link'' = Some ''/etc/passwd''
   \<and> \<not> isAllowed [''/a/allowed''] (normalizePath ''/etc/passwd'')
   \<and> validatePath exampleEnv [''/a/allowed''] ''/a/allowed/link'' = Inr ''/a/allowed/link''
   \<and> (\<forall>e dirs requestedPath.
         validatePath e dirs requestedPath \<noteq> Inl AccessDeniedSymlink
         \<and> validatePath e dirs requestedPath \<noteq> Inl AccessDeniedParent)"
proof -
  have dirs: "allowedDirectories exampleEnv [''/a/allowed''] = [''/a/allowed'']"
    by (simp add: path_defs exampleEnv_def)
  have abs: "absolutePath exampleEnv ''/a/allowed/link'' = ''/a/allowed/link''"
    by (simp add: path_defs exampleEnv_def)
  have real: "realpath exampleEnv ''/a/allowed/link'' = Some ''/etc/passwd''"
    by (simp add: exampleEnv_def)
  have outside: "\<not> isAllowed [''/a/allowed''] (normalizePath ''/etc/passwd'')"
    by (simp add: path_defs)
  have parent: "path_dirname ''/a/allowed/link'' = ''/a/allowed''"
    by (simp add: path_defs)
  have accepted: "validatePath exampleEnv [''/a/allowed''] ''/a/allowed/link''
      = Inr ''/a/allowed/link''"
    unfolding validatePath_unfold abs parent
    by (simp add: tryRealpath_def tryParent_def isAllowed_def startsWith_def normalizePath_def
        path_normalize_def normalizeString_def exampleEnv_def)
  have never: "validatePath e dirs requestedPath \<noteq> Inl AccessDeniedSymlink
      \<and> validatePath e dirs requestedPath \<noteq> Inl AccessDeniedParent" for e dirs requestedPath
    using validatePath_errors [of e dirs requestedPath] by auto
  from dirs abs real outside accepted never show ?thesis
    by blast
qed

text \<open>
  Claim C2, as stated: \<open>validatePath\<close> succeeds exactly when the canonical form of the
  path, after the resolution of symbolic links, has an allowed root as a
  path-segment-respecting prefix, so that \<open>/a/allowed-evil\<close> is rejected for the root
  \<open>/a/allowed\<close>. The code accepts \<open>/a/allowed-evil\<close>, and it rejects \<open>/tmp/link\<close>,
  whose real path \<open>/a/allowed/f.txt\<close> is inside the root.
\<close>

theorem C2_counterexample:
  "validatePath exampleEnv [''/a/allowed''] ''/a/allowed-evil'' = Inr ''/a/allowed-evil''
   \<and> \<not> segmentAllowed [''/a/allowed''] ''/a/allowed-evil''
   \<and> realpath exampleEnv ''/tmp/link'' = Some ''/a/allowed/f.txt''
   \<and> segmentAllowed [''/a/allowed''] ''/a/allowed/f.txt''
   \<and> validatePath exampleEnv [''/a/allowed''] ''/tmp/link'' = Inl AccessDeniedPath"
proof -
  have abs1: "absolutePath exampleEnv ''/a/allowed-evil'' = ''/a/allowed-evil''"
    by (simp add: path_defs exampleEnv_def)
  have abs2: "absolutePath exampleEnv ''/tmp/link'' = ''/tmp/link''"
    by (simp add: path_defs exampleEnv_def)
  have evil: "validatePath exampleEnv [''/a/allowed''] ''/a/allowed-evil'' = Inr ''/a/allowed-evil''"
    unfolding validatePath_unfold abs1
    by (simp add: tryRealpath_def isAllowed_def startsWith_def normalizePath_def
        path_normalize_def normalizeString_def exampleEnv_def)
  have link: "validatePath exampleEnv [''/a/allowed''] ''/tmp/link'' = Inl AccessDeniedPath"
    unfolding validatePath_unfold abs2
    by (simp add: isAllowed_def startsWith_def normalizePath_def
        path_normalize_def normalizeString_def)
  have seg: "\<not> segmentAllowed [''/a/allowed''] ''/a/allowed-evil''
      \<and> segmentAllowed [''/a/allowed''] ''/a/allowed/f.txt''"
    by (simp add: segmentAllowed_def segmentPrefix_def)
  have real: "realpath exampleEnv ''/tmp/link'' = Some ''/a/allowed/f.txt''"
    by (simp add: exampleEnv_def)
  from evil link seg real show ?thesis
    by blast
qed

text \<open>
  Claim C2, amended. When \<open>validatePath\<close> succeeds, the normalized absolute form of the
  path starts with an allowed root, and the result is either the real path of the path,
  which starts with an allowed root, or the absolute path itself, and then the real path
  of its parent directory starts with an allowed root. When the normalized absolute form
  starts with no allowed root, \<open>validatePath\<close> fails with \<open>AccessDenied\<close>. When an
  allowed root is a path-segment-respecting prefix of the normalized absolute form and
  of the real path, the real path is returned; when the path has no real path and an
  allowed root is a path-segment-respecting prefix of the normalized absolute form and of
  the real path of the parent directory, the absolute path is returned. A
  path-segment-respecting prefix is a prefix.
\<close>

theorem C2_path_guard:
  "(validatePath e dirs p = Inr r \<longrightarrow>
      isAllowed dirs (normalizePath (absolutePath e p))
      \<and> ((realpath e (absolutePath e p) = Some r \<and> isAllowed dirs (normalizePath r))
         \<or> (r = absolutePath e p
            \<and> (\<exists>realParentPath.
                  realpath e (path_dirname (absolutePath e p)) = Some realParentPath
                  \<and> isAllowed dirs (normalizePath realParentPath)))))
   \<and> (\<not> isAllowed dirs (normalizePath (absolutePath e p)) \<longrightarrow>
        validatePath e dirs p = Inl AccessDeniedPath)
   \<and> (segmentAllowed dirs (normalizePath (absolutePath e p))
        \<and> realpath e (absolutePath e p) = Some r
        \<and> segmentAllowed dirs (normalizePath r) \<longrightarrow>
        validatePath e dirs p = Inr r)
   \<and> (segmentAllowed dirs (normalizePath (absolutePath e p))
        \<and> realpath e (absolutePath e p) = None
        \<and> realpath e (path_dirname (absolutePath e p)) = Some realParentPath
        \<and> segmentAllowed dirs (normalizePath realParentPath) \<longrightarrow>
        validatePath e dirs p = Inr (absolutePath e p))
   \<and> (segmentAllowed dirs q \<longrightarrow> isAllowed dirs q)"
proof (intro conjI impI)
  assume "validatePath e dirs p = Inr r"
  then show "isAllowed dirs (normalizePath (absolutePath e p))"
    and "(realpath e (absolutePath e p) = Some r \<and> isAllowed dirs (normalizePath r))
         \<or> (r = absolutePath e p
            \<and> (\<exists>realParentPath.
                  realpath e (path_dirname (absolutePath e p)) = Some realParentPath
                  \<and> isAllowed dirs (normalizePath realParentPath)))"
    by (auto simp: validatePath_unfold tryRealpath_def tryParent_def Let_def
        split: if_splits sum.splits option.splits)
next
  assume "\<not> isAllowed dirs (normalizePath (absolutePath e p))"
  then show "validatePath e dirs p = Inl AccessDeniedPath"
    by (simp add: validatePath_unfold)
next
  assume "segmentAllowed dirs (normalizePath (absolutePath e p))
        \<and> realpath e (absolutePath e p) = Some r
        \<and> segmentAllowed dirs (normalizePath r)"
  then show "validatePath e dirs p = Inr r"
    by (auto simp: validatePath_unfold tryRealpath_def Let_def dest: segmentAllowed_isAllowed)
next
  assume "segmentAllowed dirs (normalizePath (absolutePath e p))
        \<and> realpath e (absolutePath e p) = None
        \<and> realpath e (path_dirname (absolutePath e p)) = Some realParentPath
        \<and> segmentAllowed dirs (normalizePath realParentPath)"
  then show "validatePath e dirs p = Inr (absolutePath e p)"
    by (auto simp: validatePath_unfold tryRealpath_def tryParent_def Let_def
        dest: segmentAllowed_isAllowed)
next
  assume "segmentAllowed dirs q"
  then show "isAllowed dirs q"
    by (rule segmentAllowed_isAllowed)
qed

lemma example_paths:
  "absolutePath exampleEnv ''f.txt'' = ''/a/allowed/f.txt''"
  "absolutePath exampleEnv ''~/notes'' = ''/home/user/notes''"
  "absolutePath exampleEnv ''/a/allowed/sub/../new.txt'' = ''/a/allowed/new.txt''"
  "path_dirname ''/a/allowed/new.txt'' = ''/a/allowed''"
  "normalizePath ''/a/allowed/f.txt'' = ''/a/allowed/f.txt''"
  "normalizePath ''/a/allowed/new.txt'' = ''/a/allowed/new.txt''"
  "normalizePath ''/a/allowed'' = ''/a/allowed''"
  "normalizePath ''/home/user/notes'' = ''/home/user/notes''"
  by (simp_all add: path_defs path_join_def exampleEnv_def)

text \<open>
  The amended claim C2 at an existing file, at a path outside the allowed directory and at
  a new file.
\<close>

theorem C2_path_guard_witness:
  "validatePath exampleEnv [''/a/allowed''] ''f.txt'' = Inr ''/a/allowed/f.txt''
   \<and> isAllowed [''/a/allowed''] ''/a/allowed/f.txt''
   \<and> realpath exampleEnv ''/a/allowed/f.txt'' = Some ''/a/allowed/f.txt''
   \<and> \<not> isAllowed [''/a/allowed''] ''/home/user/notes''
   \<and> validatePath exampleEnv [''/a/allowed''] ''~/notes'' = Inl AccessDeniedPath
   \<and> segmentAllowed [''/a/allowed''] ''/a/allowed/new.txt''
   \<and> realpath exampleEnv ''/a/allowed/new.txt'' = None
   \<and> realpath exampleEnv ''/a/allowed'' = Some ''/a/allowed''
   \<and> segmentAllowed [''/a/allowed''] ''/a/allowed''
   \<and> validatePath exampleEnv [''/a/allowed''] ''/a/allowed/sub/../new.txt''
       = Inr ''/a/allowed/new.txt''"
proof -
  have seg: "segmentAllowed [''/a/allowed''] ''/a/allowed/f.txt''"
    "segmentAllowed [''/a/allowed''] ''/a/allowed/new.txt''"
    "segmentAllowed [''/a/allowed''] ''/a/allowed''"
    by (simp_all add: segmentAllowed_def segmentPrefix_def)
  have out: "\<not> isAllowed [''/a/allowed''] ''/home/user/notes''"
    by (simp add: isAllowed_def startsWith_def)
  have real: "realpath exampleEnv ''/a/allowed/f.txt'' = Some ''/a/allowed/f.txt''"
    "realpath exampleEnv ''/a/allowed/new.txt'' = None"
    "realpath exampleEnv ''/a/allowed'' = Some ''/a/allowed''"
    by (simp_all add: exampleEnv_def)
  from C2_path_guard [of exampleEnv "[''/a/allowed'']" "''f.txt''" "''/a/allowed/f.txt''" "[]"
      "''/a/allowed/f.txt''"]
    C2_path_guard [of exampleEnv "[''/a/allowed'']" "''~/notes''" "[]" "[]" "[]"]
    C2_path_guard [of exampleEnv "[''/a/allowed'']" "''/a/allowed/sub/../new.txt''" "[]"
      "''/a/allowed''" "[]"]
    seg out real
  show ?thesis
    by (simp add: example_paths)
qed

end
